theory Spec2Isabelle
  imports Main "HOL-Library.AList" "HOL-Library.Sublist"
begin

section \<open>Shared data: the rebuild callback payload\<close>

text \<open>
  \<^verbatim>\<open>RebuildScanResult\<close> of \<^verbatim>\<open>types/index.ts\<close>: the payload the rebuild workflow posts
  back. Optional fields are \<open>option\<close>s, \<^verbatim>\<open>number\<close> fields that hold counts are \<open>nat\<close>.
\<close>

record ScanFinding =
  sf_cveId :: string
  sf_packageName :: string
  sf_severity :: string
  sf_fixedVersion :: "string option"

record ScanSummary =
  vulnerabilities :: "ScanFinding list"
  totalCount :: nat
  scanTool :: string

record RebuildScanResult =
  rs_vulnId :: string
  rs_cveId :: string
  rs_repoOwner :: string
  rs_repoName :: string
  rs_imageName :: string
  rs_tag :: string
  rs_workflowRunId :: nat
  scanResults :: ScanSummary
  buildSuccess :: bool
  rs_timestamp :: string

section \<open>The pending-rebuild store (\<^verbatim>\<open>services/pendingRebuilds.ts\<close>)\<close>

text \<open>
  The module keeps a process-wide \<^verbatim>\<open>Map<string, PendingRebuild>\<close>, a promise per entry and
  a \<^verbatim>\<open>setTimeout\<close> timer per entry. The model makes the runtime explicit:
  \<^item> the \<^verbatim>\<open>Map\<close> is an association list in insertion order (\<^verbatim>\<open>set\<close> on a present key
    keeps its place, \<^verbatim>\<open>delete\<close> removes the key);
  \<^item> a promise is a handle (a number); every call of a handle's \<^verbatim>\<open>resolve\<close> or
    \<^verbatim>\<open>reject\<close> function is appended to \<open>completions\<close>;
  \<^item> a timer is a record of what its closure captured, with the clock value at which the
    runtime may run it; \<^verbatim>\<open>clearTimeout\<close> removes it from the armed timers;
  \<^item> the clock counts milliseconds.
\<close>

datatype settlement = Fulfilled RebuildScanResult | Rejected string

record PendingRebuild =
  pr_vulnId :: string
  pr_cveId :: string
  pr_repoOwner :: string
  pr_repoName :: string
  pr_tagName :: string
  pr_createdAt :: nat
  pr_promise :: nat
  pr_timeoutId :: nat

record RegisterParams =
  rp_vulnId :: string
  rp_cveId :: string
  rp_repoOwner :: string
  rp_repoName :: string
  rp_tagName :: string

record Timer =
  t_id :: nat
  t_deadline :: nat
  t_vulnId :: string
  t_cveId :: string
  t_promise :: nat

record Store =
  pending :: "(string \<times> PendingRebuild) list"
  timers :: "Timer list"
  completions :: "(nat \<times> settlement) list"
  next_promise :: nat
  next_timer :: nat
  clock :: nat

record PendingInfo =
  pi_vulnId :: string
  pi_cveId :: string
  pi_repoOwner :: string
  pi_repoName :: string
  pi_tagName :: string
  pi_createdAt :: nat

definition empty_store :: Store where
  "empty_store = \<lparr>pending = [], timers = [], completions = [],
     next_promise = 0, next_timer = 0, clock = 0\<rparr>"

definition REBUILD_TIMEOUT_MS :: nat where
  "REBUILD_TIMEOUT_MS = 30 * 60 * 1000"

definition digit_char :: "nat \<Rightarrow> char" where
  "digit_char d = ''0123456789'' ! d"

text \<open>Decimal rendering of a natural number, as a template literal renders an integer.\<close>

function string_of_nat :: "nat \<Rightarrow> string" where
  "string_of_nat n =
     (if n < 10 then [digit_char n] else string_of_nat (n div 10) @ [digit_char (n mod 10)])"
  by pat_completeness auto
termination
  by (relation "measure (\<lambda>n. n)") auto

definition clearTimeout :: "nat \<Rightarrow> Timer list \<Rightarrow> Timer list" where
  "clearTimeout tid ts = filter (\<lambda>t. t_id t \<noteq> tid) ts"

definition settle :: "nat \<Rightarrow> settlement \<Rightarrow> Store \<Rightarrow> Store" where
  "settle h r st = st\<lparr>completions := completions st @ [(h, r)]\<rparr>"

definition timeout_message :: "string \<Rightarrow> string" where
  "timeout_message cve =
     ''Rebuild timed out after '' @ string_of_nat (REBUILD_TIMEOUT_MS div 1000) @ ''s for '' @ cve"

text \<open>Lines 31-37 of \<^verbatim>\<open>registerPendingRebuild\<close>: clean up an entry already there.\<close>

definition supersede :: "string \<Rightarrow> Store \<Rightarrow> Store" where
  "supersede v st =
     (case map_of (pending st) v of
        None \<Rightarrow> st
      | Some existing \<Rightarrow>
          (settle (pr_promise existing) (Rejected ''Superseded by new rebuild'')
             (st\<lparr>timers := clearTimeout (pr_timeoutId existing) (timers st)\<rparr>))
          \<lparr>pending := AList.delete v (pending st)\<rparr>)"

text \<open>
  \<^verbatim>\<open>registerPendingRebuild\<close>: returns the promise (its handle) and the new store. The
  timer is armed for \<open>clock + REBUILD_TIMEOUT_MS\<close>.
\<close>

definition registerPendingRebuild :: "RegisterParams \<Rightarrow> Store \<Rightarrow> nat \<times> Store" where
  "registerPendingRebuild params st =
     (let st1 = supersede (rp_vulnId params) st;
          promise = next_promise st1;
          timeoutId = next_timer st1;
          timer = \<lparr>t_id = timeoutId, t_deadline = clock st1 + REBUILD_TIMEOUT_MS,
                   t_vulnId = rp_vulnId params, t_cveId = rp_cveId params,
                   t_promise = promise\<rparr>;
          entry = \<lparr>pr_vulnId = rp_vulnId params, pr_cveId = rp_cveId params,
                   pr_repoOwner = rp_repoOwner params, pr_repoName = rp_repoName params,
                   pr_tagName = rp_tagName params, pr_createdAt = clock st1,
                   pr_promise = promise, pr_timeoutId = timeoutId\<rparr>
      in (promise,
          st1\<lparr>pending := AList.update (rp_vulnId params) entry (pending st1),
              timers := timers st1 @ [timer],
              next_promise := Suc promise,
              next_timer := Suc timeoutId\<rparr>))"

text \<open>The body of the timer callback (lines 47-52), run with what the closure captured.\<close>

definition timer_callback :: "Timer \<Rightarrow> Store \<Rightarrow> Store" where
  "timer_callback t st =
     (if map_of (pending st) (t_vulnId t) \<noteq> None
      then settle (t_promise t) (Rejected (timeout_message (t_cveId t)))
             (st\<lparr>pending := AList.delete (t_vulnId t) (pending st)\<rparr>)
      else st)"

text \<open>
  The runtime firing timer \<open>tid\<close>: only an armed timer whose delay has elapsed runs, once.
\<close>

definition fire :: "nat \<Rightarrow> Store \<Rightarrow> Store" where
  "fire tid st =
     (case find (\<lambda>t. t_id t = tid) (timers st) of
        None \<Rightarrow> st
      | Some t \<Rightarrow>
          if clock st < t_deadline t then st
          else timer_callback t (st\<lparr>timers := clearTimeout tid (timers st)\<rparr>))"

definition advance :: "nat \<Rightarrow> Store \<Rightarrow> Store" where
  "advance d st = st\<lparr>clock := clock st + d\<rparr>"

definition resolvePendingRebuild :: "string \<Rightarrow> RebuildScanResult \<Rightarrow> Store \<Rightarrow> bool \<times> Store" where
  "resolvePendingRebuild v result st =
     (case map_of (pending st) v of
        None \<Rightarrow> (False, st)
      | Some entry \<Rightarrow>
          (True,
           (settle (pr_promise entry) (Fulfilled result)
              (st\<lparr>timers := clearTimeout (pr_timeoutId entry) (timers st)\<rparr>))
           \<lparr>pending := AList.delete v (pending st)\<rparr>))"

definition listPendingRebuilds :: "Store \<Rightarrow> PendingInfo list" where
  "listPendingRebuilds st =
     map (\<lambda>(k, e). \<lparr>pi_vulnId = pr_vulnId e, pi_cveId = pr_cveId e,
                     pi_repoOwner = pr_repoOwner e, pi_repoName = pr_repoName e,
                     pi_tagName = pr_tagName e, pi_createdAt = pr_createdAt e\<rparr>)
         (pending st)"

text \<open>Everything that can happen to the store, and a run of such events from a store.\<close>

datatype store_event =
    Register RegisterParams
  | Resolve string RebuildScanResult
  | Fire nat
  | Advance nat

fun store_step :: "store_event \<Rightarrow> Store \<Rightarrow> Store" where
  "store_step (Register p) st = snd (registerPendingRebuild p st)"
| "store_step (Resolve v r) st = snd (resolvePendingRebuild v r st)"
| "store_step (Fire tid) st = fire tid st"
| "store_step (Advance d) st = advance d st"

fun store_run :: "store_event list \<Rightarrow> Store \<Rightarrow> Store" where
  "store_run [] st = st"
| "store_run (e # es) st = store_run es (store_step e st)"

subsection \<open>The invariant of the store\<close>

definition entries_ok :: "Store \<Rightarrow> bool" where
  "entries_ok st \<longleftrightarrow>
     (\<forall>k e. map_of (pending st) k = Some e \<longrightarrow>
        pr_vulnId e = k \<and> pr_promise e < next_promise st \<and> pr_timeoutId e < next_timer st \<and>
        pr_promise e \<notin> fst ` set (completions st) \<and>
        (\<exists>t \<in> set (timers st). t_id t = pr_timeoutId e \<and> t_vulnId t = k))"

definition promises_unique :: "Store \<Rightarrow> bool" where
  "promises_unique st \<longleftrightarrow>
     (\<forall>k k' e e'. map_of (pending st) k = Some e \<longrightarrow> map_of (pending st) k' = Some e' \<longrightarrow>
        pr_promise e = pr_promise e' \<longrightarrow> k = k')"

definition timers_ok :: "Store \<Rightarrow> bool" where
  "timers_ok st \<longleftrightarrow>
     (\<forall>t \<in> set (timers st). t_id t < next_timer st \<and>
        (\<exists>e. map_of (pending st) (t_vulnId t) = Some e \<and> pr_timeoutId e = t_id t \<and>
             pr_promise e = t_promise t \<and> pr_cveId e = t_cveId t))"

definition completions_ok :: "Store \<Rightarrow> bool" where
  "completions_ok st \<longleftrightarrow>
     distinct (map fst (completions st)) \<and>
     (\<forall>h \<in> fst ` set (completions st). h < next_promise st)"

definition store_inv :: "Store \<Rightarrow> bool" where
  "store_inv st \<longleftrightarrow>
     distinct (map fst (pending st)) \<and> distinct (map t_id (timers st)) \<and>
     entries_ok st \<and> promises_unique st \<and> timers_ok st \<and> completions_ok st"

text \<open>Removing a live entry together with its timer and settling its promise.\<close>

definition drop_entry :: "string \<Rightarrow> PendingRebuild \<Rightarrow> settlement \<Rightarrow> Store \<Rightarrow> Store" where
  "drop_entry v e r st =
     (settle (pr_promise e) r (st\<lparr>timers := clearTimeout (pr_timeoutId e) (timers st)\<rparr>))
       \<lparr>pending := AList.delete v (pending st)\<rparr>"

definition add_entry :: "RegisterParams \<Rightarrow> Store \<Rightarrow> Store" where
  "add_entry params st1 =
     st1\<lparr>pending := AList.update (rp_vulnId params)
            \<lparr>pr_vulnId = rp_vulnId params, pr_cveId = rp_cveId params,
             pr_repoOwner = rp_repoOwner params, pr_repoName = rp_repoName params,
             pr_tagName = rp_tagName params, pr_createdAt = clock st1,
             pr_promise = next_promise st1, pr_timeoutId = next_timer st1\<rparr> (pending st1),
          timers := timers st1 @
            [\<lparr>t_id = next_timer st1, t_deadline = clock st1 + REBUILD_TIMEOUT_MS,
              t_vulnId = rp_vulnId params, t_cveId = rp_cveId params,
              t_promise = next_promise st1\<rparr>],
          next_promise := Suc (next_promise st1),
          next_timer := Suc (next_timer st1)\<rparr>"

subsection \<open>Sample data of \<^verbatim>\<open>manualValidation.ts\<close>\<close>

text \<open>The timestamp of the sample is the time the module is loaded; a fixed one stands for it.\<close>

definition sampleRebuildScanResult :: RebuildScanResult where
  "sampleRebuildScanResult =
     \<lparr>rs_vulnId = ''test-vuln-container-001'', rs_cveId = ''CVE-2023-4911'',
      rs_repoOwner = ''test-org'', rs_repoName = ''test-repo'',
      rs_imageName = ''ubuntu:22.04'', rs_tag = ''rebuild-cve-2023-4911-2024-02-09'',
      rs_workflowRunId = 12345,
      scanResults = \<lparr>vulnerabilities =
          [\<lparr>sf_cveId = ''CVE-2024-9999'', sf_packageName = ''openssl'',
            sf_severity = ''medium'', sf_fixedVersion = Some ''1.1.1w''\<rparr>],
        totalCount = 1, scanTool = ''trivy''\<rparr>,
      buildSuccess = True, rs_timestamp = ''2024-02-09T00:00:00.000Z''\<rparr>"

definition sampleRegisterParams :: RegisterParams where
  "sampleRegisterParams =
     \<lparr>rp_vulnId = ''test-vuln-container-001'', rp_cveId = ''CVE-2023-4911'',
      rp_repoOwner = ''test-org'', rp_repoName = ''test-repo'',
      rp_tagName = ''rebuild/cve-2023-4911-2024-02-09T00-00-00''\<rparr>"

section \<open>The remediation state (\<^verbatim>\<open>types/index.ts\<close>, \<^verbatim>\<open>agents/state.ts\<close>)\<close>

datatype VulnCategory = Container | Code

datatype Severity = Critical | High | Medium | Low

datatype RemediationStatus =
    Pending | Classifying | Rebuilding | Searching_rag | Researching | Creating_pr
  | Creating_tag_workflow | Storing_fix | Resolved | Awaiting_approval | Awaiting_rebuild
  | Verifying_rebuild | Failed

datatype StepStatus = Running | Completed | StepFailed | Skipped

record Vulnerability =
  v_id :: string
  v_cveId :: string
  v_packageName :: string
  v_currentVersion :: string
  v_fixedVersion :: "string option"
  v_severity :: Severity
  v_description :: string
  v_source :: string
  v_imageName :: "string option"
  v_filePath :: "string option"
  v_createdAt :: string
  v_repoOwner :: "string option"
  v_repoName :: "string option"

record StoredFix =
  sfx_id :: string
  sfx_cveId :: string
  sfx_category :: VulnCategory
  sfx_packageName :: string
  sfx_fixDescription :: string
  sfx_fixSteps :: string
  sfx_patchContent :: "string option"
  sfx_dockerfileChanges :: "string option"
  sfx_prUrl :: "string option"
  sfx_tagName :: "string option"
  sfx_resolvedAt :: nat

text \<open>
  A step-log entry. \<^verbatim>\<open>timestamp\<close> is \<^verbatim>\<open>new Date().toISOString()\<close> in the source; the
  model keeps the instant itself (milliseconds), which the ISO string renders.
\<close>

record StepLogEntry =
  timestamp :: nat
  node :: string
  message :: string
  step_status :: StepStatus

record RemediationState =
  vulnerability :: Vulnerability
  category :: "VulnCategory option"
  classificationReason :: string
  rebuildWouldFix :: "bool option"
  rebuildCheckReason :: string
  ragResults :: "StoredFix list"
  ragFixApplicable :: bool
  proposedFix :: string
  fixSteps :: string
  patchContent :: string
  dockerfileChanges :: string
  prUrl :: string
  tagName :: string
  workflowRunUrl :: string
  rebuildVerified :: bool
  rebuildSuccessful :: bool
  rebuildScanResult :: "RebuildScanResult option"
  status :: RemediationStatus
  stepLog :: "StepLogEntry list"
  error :: string

text \<open>
  \<^verbatim>\<open>Partial<RemediationStateType>\<close>, what a node returns: a field is \<open>None\<close> when the
  returned object has no such key.
\<close>

record StateUpdate =
  u_vulnerability :: "Vulnerability option"
  u_category :: "VulnCategory option option"
  u_classificationReason :: "string option"
  u_rebuildWouldFix :: "bool option option"
  u_rebuildCheckReason :: "string option"
  u_ragResults :: "StoredFix list option"
  u_ragFixApplicable :: "bool option"
  u_proposedFix :: "string option"
  u_fixSteps :: "string option"
  u_patchContent :: "string option"
  u_dockerfileChanges :: "string option"
  u_prUrl :: "string option"
  u_tagName :: "string option"
  u_workflowRunUrl :: "string option"
  u_rebuildVerified :: "bool option"
  u_rebuildSuccessful :: "bool option"
  u_rebuildScanResult :: "RebuildScanResult option option"
  u_status :: "RemediationStatus option"
  u_stepLog :: "StepLogEntry list option"
  u_error :: "string option"

definition no_update :: StateUpdate where
  "no_update = \<lparr>u_vulnerability = None, u_category = None, u_classificationReason = None,
     u_rebuildWouldFix = None, u_rebuildCheckReason = None, u_ragResults = None,
     u_ragFixApplicable = None, u_proposedFix = None, u_fixSteps = None,
     u_patchContent = None, u_dockerfileChanges = None, u_prUrl = None, u_tagName = None,
     u_workflowRunUrl = None, u_rebuildVerified = None, u_rebuildSuccessful = None,
     u_rebuildScanResult = None, u_status = None, u_stepLog = None, u_error = None\<rparr>"

text \<open>The reducers of \<^verbatim>\<open>RemediationStateAnnotation\<close>.\<close>

definition overwrite :: "'a \<Rightarrow> 'a \<Rightarrow> 'a" where
  "overwrite prev nxt = nxt"

definition append_log :: "StepLogEntry list \<Rightarrow> StepLogEntry list \<Rightarrow> StepLogEntry list" where
  "append_log prev nxt = prev @ nxt"

text \<open>
  The graph runtime applies a node's return value channel by channel: a key that is
  present goes through the channel's reducer, an absent key leaves the channel as it is.
\<close>

definition reduce :: "('a \<Rightarrow> 'a \<Rightarrow> 'a) \<Rightarrow> 'a \<Rightarrow> 'a option \<Rightarrow> 'a" where
  "reduce f prev upd = (case upd of None \<Rightarrow> prev | Some nxt \<Rightarrow> f prev nxt)"

definition apply_update :: "RemediationState \<Rightarrow> StateUpdate \<Rightarrow> RemediationState" where
  "apply_update s u =
     \<lparr>vulnerability = reduce overwrite (vulnerability s) (u_vulnerability u),
      category = reduce overwrite (category s) (u_category u),
      classificationReason = reduce overwrite (classificationReason s) (u_classificationReason u),
      rebuildWouldFix = reduce overwrite (rebuildWouldFix s) (u_rebuildWouldFix u),
      rebuildCheckReason = reduce overwrite (rebuildCheckReason s) (u_rebuildCheckReason u),
      ragResults = reduce overwrite (ragResults s) (u_ragResults u),
      ragFixApplicable = reduce overwrite (ragFixApplicable s) (u_ragFixApplicable u),
      proposedFix = reduce overwrite (proposedFix s) (u_proposedFix u),
      fixSteps = reduce overwrite (fixSteps s) (u_fixSteps u),
      patchContent = reduce overwrite (patchContent s) (u_patchContent u),
      dockerfileChanges = reduce overwrite (dockerfileChanges s) (u_dockerfileChanges u),
      prUrl = reduce overwrite (prUrl s) (u_prUrl u),
      tagName = reduce overwrite (tagName s) (u_tagName u),
      workflowRunUrl = reduce overwrite (workflowRunUrl s) (u_workflowRunUrl u),
      rebuildVerified = reduce overwrite (rebuildVerified s) (u_rebuildVerified u),
      rebuildSuccessful = reduce overwrite (rebuildSuccessful s) (u_rebuildSuccessful u),
      rebuildScanResult = reduce overwrite (rebuildScanResult s) (u_rebuildScanResult u),
      status = reduce overwrite (status s) (u_status u),
      stepLog = reduce append_log (stepLog s) (u_stepLog u),
      error = reduce overwrite (error s) (u_error u)\<rparr>"

text \<open>The channel defaults, with the vulnerability the caller passes in.\<close>

definition initial_state :: "Vulnerability \<Rightarrow> RemediationState" where
  "initial_state vuln =
     \<lparr>vulnerability = vuln, category = None, classificationReason = [],
      rebuildWouldFix = None, rebuildCheckReason = [], ragResults = [],
      ragFixApplicable = False, proposedFix = [], fixSteps = [], patchContent = [],
      dockerfileChanges = [], prUrl = [], tagName = [], workflowRunUrl = [],
      rebuildVerified = False, rebuildSuccessful = False, rebuildScanResult = None,
      status = Pending, stepLog = [], error = []\<rparr>"

section \<open>External collaborators and the world the nodes act on\<close>

text \<open>
  What \<^verbatim>\<open>llm.invoke\<close> and \<^verbatim>\<open>JSON.parse\<close> can produce for a node: the call rejects, the
  text does not parse (or parses to \<^verbatim>\<open>null\<close>, whose property read throws inside the same
  \<^verbatim>\<open>try\<close>), or it parses to a value with the fields read, absent ones being \<open>None\<close>.
\<close>

datatype 'a llm_reply = InvokeThrows string | Unparseable string | Json 'a

record classify_json =
  cj_category :: "string option"
  cj_reason :: "string option"

record rebuild_json =
  rj_rebuildWouldFix :: "bool option"
  rj_reason :: "string option"

record research_json =
  xj_fixDescription :: "string option"
  xj_fixSteps :: "string option"
  xj_patchContent :: "string option"
  xj_dockerfileChanges :: "string option"

record PullRequestFile =
  f_path :: string
  f_content :: string

record CreatePullRequestParams =
  pp_cveId :: string
  pp_branchName :: string
  pp_title :: string
  pp_body :: string
  pp_files :: "PullRequestFile list"
  pp_repoOwner :: "string option"
  pp_repoName :: "string option"

record CreateApprovalTagWorkflowParams =
  tp_tagName :: string
  tp_cveId :: string
  tp_message :: string
  tp_imageName :: "string option"
  tp_repoOwner :: "string option"
  tp_repoName :: "string option"
  tp_vulnId :: "string option"
  tp_callbackUrl :: "string option"

text \<open>The \<^verbatim>\<open>inputs\<close> of the \<^verbatim>\<open>rebuild-image.yml\<close> dispatch.\<close>

record DispatchInputs =
  di_tag :: string
  di_cve_id :: string
  di_vuln_id :: "string option"
  di_callback_url :: "string option"
  di_image_name :: "string option"

record CreateApprovalTagWorkflowResult =
  tr_tagName :: string
  tr_tagUrl :: string
  tr_workflowRunUrl :: string

datatype graph_node =
    ClassifyVuln | TryRebuild | SearchRAG | ResearchFix | CreatePR | CreateTagWorkflow
  | VerifyRebuildResult | StoreInRAG

text \<open>
  The answers of the services for one run. \<open>Inl\<close> is the message of the error thrown.
  \<open>gh_tag\<close> answers the repository, ref and tag calls of \<^verbatim>\<open>createApprovalTagWorkflow\<close>
  for the owner and repository they are addressed to, with the default branch;
  \<open>gh_dispatch_ok\<close> says whether its workflow dispatch goes through. \<open>delay\<close> is the time
  that passes until a node writes its log entry.
\<close>

record Env =
  llm_classify :: "classify_json llm_reply"
  llm_rebuild :: "rebuild_json llm_reply"
  llm_research :: "research_json llm_reply"
  searchFixes :: "string \<Rightarrow> string \<Rightarrow> string + StoredFix list"
  gh_createPullRequest :: "CreatePullRequestParams \<Rightarrow> string + string \<times> nat"
  gh_tag :: "string option \<Rightarrow> string option \<Rightarrow> string + string"
  gh_dispatch_ok :: bool
  storeFix_error :: "string option"
  uuidv4 :: string
  toISOString :: "nat \<Rightarrow> string"
  delay :: "graph_node \<Rightarrow> nat"

record World =
  w_now :: nat
  w_store :: Store
  w_pull_requests :: "CreatePullRequestParams list"
  w_tags :: "string list"
  w_dispatches :: "DispatchInputs list"
  w_fixes :: "StoredFix list"

section \<open>Strings as the nodes build them\<close>

definition truthy :: "string option \<Rightarrow> bool" where
  "truthy s = (case s of None \<Rightarrow> False | Some t \<Rightarrow> t \<noteq> [])"

definition or_else :: "string option \<Rightarrow> string \<Rightarrow> string" where
  "or_else s d = (case s of None \<Rightarrow> d | Some t \<Rightarrow> t)"

text \<open>How a template literal prints an optional string.\<close>

definition show_opt :: "string option \<Rightarrow> string" where
  "show_opt s = or_else s ''undefined''"

definition or_undefined :: "string \<Rightarrow> string option" where
  "or_undefined s = (if s = [] then None else Some s)"

text \<open>\<^verbatim>\<open>toLowerCase\<close> on the ASCII letters; CVE identifiers are ASCII.\<close>

definition toLowerCase :: "string \<Rightarrow> string" where
  "toLowerCase s =
     map (\<lambda>c. case map_of (zip ''ABCDEFGHIJKLMNOPQRSTUVWXYZ'' ''abcdefghijklmnopqrstuvwxyz'') c of
                None \<Rightarrow> c | Some l \<Rightarrow> l) s"

text \<open>\<^verbatim>\<open>.replace(/[^a-z0-9-]/g, "-")\<close>\<close>

definition slug :: "string \<Rightarrow> string" where
  "slug s =
     map (\<lambda>c. if c \<in> set ''abcdefghijklmnopqrstuvwxyz0123456789-'' then c else CHR ''-'') s"

text \<open>\<^verbatim>\<open>.replace(/[:.]/g, "-")\<close>\<close>

definition dash_time :: "string \<Rightarrow> string" where
  "dash_time s = map (\<lambda>c. if c = CHR '':'' \<or> c = CHR ''.'' then CHR ''-'' else c) s"

text \<open>\<^verbatim>\<open>/node_modules|site-packages|vendor/.test(s)\<close>\<close>

definition dependency_dir :: "string \<Rightarrow> bool" where
  "dependency_dir s =
     (sublist ''node_modules'' s \<or> sublist ''site-packages'' s \<or> sublist ''vendor'' s)"

text \<open>The UTF-8 bytes of the dash and the arrow that the messages contain.\<close>

definition em_dash :: string where
  "em_dash = [CHR 0xE2, CHR 0x80, CHR 0x94]"

definition right_arrow :: string where
  "right_arrow = [CHR 0xE2, CHR 0x86, CHR 0x92]"

definition category_name :: "VulnCategory \<Rightarrow> string" where
  "category_name c = (case c of Container \<Rightarrow> ''container'' | Code \<Rightarrow> ''code'')"

definition severity_name :: "Severity \<Rightarrow> string" where
  "severity_name s =
     (case s of Critical \<Rightarrow> ''critical'' | High \<Rightarrow> ''high'' | Medium \<Rightarrow> ''medium''
      | Low \<Rightarrow> ''low'')"

definition logEntry :: "nat \<Rightarrow> string \<Rightarrow> string \<Rightarrow> StepStatus \<Rightarrow> StepLogEntry" where
  "logEntry now n m st = \<lparr>timestamp = now, node = n, message = m, step_status = st\<rparr>"

text \<open>
  \<^verbatim>\<open>s.slice(0, n)\<close>. The source counts UTF-16 code units; the strings here are the UTF-8
  bytes of the text. A sequence of one to three bytes is one unit, a sequence of four
  bytes is two (a surrogate pair). A cut between the two leaves the high surrogate alone,
  written in the same three-byte form.
\<close>

definition utf8_len :: "char \<Rightarrow> nat" where
  "utf8_len c =
     (let k = (of_char c :: nat)
      in if k < 0xC0 then 1 else if k < 0xE0 then 2 else if k < 0xF0 then 3 else 4)"

definition high_surrogate :: "string \<Rightarrow> string" where
  "high_surrogate bs =
     (let b = map (\<lambda>c. (of_char c :: nat)) bs;
          cp = (b ! 0 mod 8) * 262144 + (b ! 1 mod 64) * 4096 + (b ! 2 mod 64) * 64 +
               (b ! 3 mod 64);
          hs = 0xD800 + (cp - 0x10000) div 0x400
      in if length bs < 4 then bs
         else [char_of (0xE0 + hs div 4096), char_of (0x80 + (hs div 64) mod 64),
               char_of (0x80 + hs mod 64)])"

function slice_utf16 :: "nat \<Rightarrow> string \<Rightarrow> string" where
  "slice_utf16 n s =
     (case s of
        [] \<Rightarrow> []
      | c # cs \<Rightarrow>
          if n = 0 then []
          else if utf8_len c = 4
          then (if 2 \<le> n then take 4 s @ slice_utf16 (n - 2) (drop 4 s)
                else high_surrogate (take 4 s))
          else take (utf8_len c) s @ slice_utf16 (n - 1) (drop (utf8_len c) s))"
  by pat_completeness auto
termination
  by (relation "measure (\<lambda>(n, s). n)") auto

declare slice_utf16.simps [simp del]

definition nl :: string where
  "nl = [CHR 0x0A]"

definition dquote :: string where
  "dquote = [CHR 0x22]"

section \<open>The nodes (\<^verbatim>\<open>agents/agentNodes.ts\<close>)\<close>

text \<open>
  A node that awaits the language model returns \<open>Inl\<close> with the error when the call
  rejects (nothing catches it), else its partial state. \<open>now\<close> is the clock when the node
  writes its log entry. The prompts are not modelled: the reply is an input.
\<close>

definition classify_result :: "nat \<Rightarrow> VulnCategory \<Rightarrow> string \<Rightarrow> StateUpdate" where
  "classify_result now cat reason =
     no_update\<lparr>u_category := Some (Some cat),
       u_classificationReason := Some reason,
       u_status := Some Classifying,
       u_stepLog := Some [logEntry now ''classifyVuln''
          (''Classified as '' @ category_name cat @ '': '' @ reason) Completed]\<rparr>"

definition classifyVuln ::
  "nat \<Rightarrow> classify_json llm_reply \<Rightarrow> RemediationState \<Rightarrow> string + StateUpdate" where
  "classifyVuln now reply state =
     (let vuln = vulnerability state in
      case reply of
        InvokeThrows e \<Rightarrow> Inl e
      | Json parsed \<Rightarrow>
          Inr (classify_result now
                 (if cj_category parsed = Some ''container'' then Container else Code)
                 (or_else (cj_reason parsed) []))
      | Unparseable text \<Rightarrow>
          (let isOsPkg =
                 (v_source vuln = ''trivy'' \<and>
                  \<not> truthy (v_filePath vuln) \<and>
                  truthy (v_imageName vuln) \<and>
                  \<not> dependency_dir (or_else (v_filePath vuln) []))
           in Inr (classify_result now
                     (if isOsPkg then Container else Code)
                     (''Fallback heuristic: '' @
                        (if isOsPkg then ''OS-level package in image''
                         else ''application dependency'')))))"

definition rebuild_result :: "nat \<Rightarrow> bool \<Rightarrow> string \<Rightarrow> StateUpdate" where
  "rebuild_result now wouldFix reason =
     no_update\<lparr>u_rebuildWouldFix := Some (Some wouldFix),
       u_rebuildCheckReason := Some reason,
       u_status := Some Rebuilding,
       u_stepLog := Some [logEntry now ''tryRebuild''
          (if wouldFix then ''Rebuild would fix: '' @ reason
           else ''Rebuild insufficient: '' @ reason) Completed]\<rparr>"

definition tryRebuild ::
  "nat \<Rightarrow> rebuild_json llm_reply \<Rightarrow> RemediationState \<Rightarrow> string + StateUpdate" where
  "tryRebuild now reply state =
     (case reply of
        InvokeThrows e \<Rightarrow> Inl e
      | Json parsed \<Rightarrow>
          Inr (rebuild_result now (rj_rebuildWouldFix parsed = Some True)
                 (or_else (rj_reason parsed) []))
      | Unparseable text \<Rightarrow>
          Inr (rebuild_result now False
                 (''Could not determine '' @ em_dash @ '' proceeding with research.'')))"

definition searchRAG ::
  "nat \<Rightarrow> (string \<Rightarrow> string \<Rightarrow> string + StoredFix list) \<Rightarrow> RemediationState \<Rightarrow> StateUpdate" where
  "searchRAG now search state =
     (let vuln = vulnerability state;
          found = (case search (v_cveId vuln) (v_packageName vuln) of
                     Inl err \<Rightarrow> []
                   | Inr rs \<Rightarrow> rs);
          applicable = (0 < length found)
      in no_update\<lparr>u_ragResults := Some found,
           u_ragFixApplicable := Some applicable,
           u_status := Some Searching_rag,
           u_stepLog := Some [logEntry now ''searchRAG''
              (if applicable
               then ''Found '' @ string_of_nat (length found) @ '' known fix(es) in RAG database.''
               else ''No known fixes found in RAG database.'') Completed]\<rparr>)"

definition research_result ::
  "nat \<Rightarrow> string \<Rightarrow> string \<Rightarrow> string \<Rightarrow> string \<Rightarrow> StateUpdate" where
  "research_result now fix steps patch docker =
     no_update\<lparr>u_proposedFix := Some fix,
       u_fixSteps := Some steps,
       u_patchContent := Some patch,
       u_dockerfileChanges := Some docker,
       u_status := Some Researching,
       u_stepLog := Some [logEntry now ''researchFix''
          (''Fix researched: '' @ slice_utf16 120 fix @ ''...'') Completed]\<rparr>"

definition researchFix ::
  "nat \<Rightarrow> research_json llm_reply \<Rightarrow> RemediationState \<Rightarrow> string + StateUpdate" where
  "researchFix now reply state =
     (case reply of
        InvokeThrows e \<Rightarrow> Inl e
      | Json parsed \<Rightarrow>
          Inr (research_result now
                 (or_else (xj_fixDescription parsed) [])
                 (or_else (xj_fixSteps parsed) [])
                 (or_else (xj_patchContent parsed) [])
                 (or_else (xj_dockerfileChanges parsed) []))
      | Unparseable text \<Rightarrow>
          Inr (research_result now text
                 (''Manual review needed '' @ em_dash @ '' LLM response was not structured.'')
                 [] []))"

definition failed_update :: "nat \<Rightarrow> string \<Rightarrow> string \<Rightarrow> string \<Rightarrow> StateUpdate" where
  "failed_update now n err msg =
     no_update\<lparr>u_status := Some Failed,
       u_error := Some err,
       u_stepLog := Some [logEntry now n msg StepFailed]\<rparr>"

definition pr_body :: "Vulnerability \<Rightarrow> RemediationState \<Rightarrow> string" where
  "pr_body vuln state =
     ''## Vulnerability Remediation'' @ nl @ nl @
     ''**CVE:** '' @ v_cveId vuln @ nl @
     ''**Package:** '' @ v_packageName vuln @ '' '' @ v_currentVersion vuln @ '' '' @
        right_arrow @ '' '' @ or_else (v_fixedVersion vuln) ''patched'' @ nl @
     ''**Severity:** '' @ severity_name (v_severity vuln) @ nl @ nl @
     ''### Fix Description'' @ nl @ proposedFix state @ nl @ nl @
     ''### Steps'' @ nl @ fixSteps state @ nl @ nl @
     ''---'' @ nl @ ''*Auto-generated by Vulnerability Remediation Agent*''"

definition createPRNode :: "Env \<Rightarrow> World \<Rightarrow> RemediationState \<Rightarrow> World \<times> StateUpdate" where
  "createPRNode env w state =
     (let vuln = vulnerability state;
          branchName = ''fix/'' @ slug (toLowerCase (v_cveId vuln));
          files = (if patchContent state \<noteq> []
                   then [\<lparr>f_path = or_else (v_filePath vuln) ''package.json'',
                          f_content = patchContent state\<rparr>]
                   else [])
      in if length files = 0
         then (w, failed_update (w_now w) ''createPR''
                    (''No patch content generated '' @ em_dash @ '' cannot create PR.'')
                    ''No patch content to commit.'')
         else
           (let params = \<lparr>pp_cveId = v_cveId vuln, pp_branchName = branchName,
                  pp_title = ''fix: remediate '' @ v_cveId vuln @ '' in '' @ v_packageName vuln,
                  pp_body = pr_body vuln state, pp_files = files,
                  pp_repoOwner = None, pp_repoName = None\<rparr>
            in case gh_createPullRequest env params of
                 Inr (url, number) \<Rightarrow>
                   (w\<lparr>w_pull_requests := w_pull_requests w @ [params]\<rparr>,
                    no_update\<lparr>u_prUrl := Some url,
                      u_status := Some Creating_pr,
                      u_stepLog := Some [logEntry (w_now w) ''createPR''
                                           (''PR created: '' @ url) Completed]\<rparr>)
               | Inl msg \<Rightarrow>
                   (w, failed_update (w_now w) ''createPR''
                         (''Failed to create PR: '' @ msg)
                         (''PR creation failed: '' @ msg))))"

text \<open>
  \<^verbatim>\<open>createApprovalTagWorkflow\<close> of \<^verbatim>\<open>tools/githubTools.ts\<close>: the tag is created, then the
  workflow is dispatched inside its own \<^verbatim>\<open>try\<close>; a failed dispatch is only logged.
\<close>

definition createApprovalTagWorkflow ::
  "Env \<Rightarrow> World \<Rightarrow> CreateApprovalTagWorkflowParams \<Rightarrow>
     string + World \<times> CreateApprovalTagWorkflowResult" where
  "createApprovalTagWorkflow env w params =
     (case gh_tag env (tp_repoOwner params) (tp_repoName params) of
        Inl msg \<Rightarrow> Inl msg
      | Inr defaultBranch \<Rightarrow>
          (let w1 = w\<lparr>w_tags := w_tags w @ [tp_tagName params]\<rparr>;
               inputs = \<lparr>di_tag = tp_tagName params, di_cve_id = tp_cveId params,
                          di_vuln_id = tp_vulnId params,
                          di_callback_url = tp_callbackUrl params,
                          di_image_name = (if truthy (tp_imageName params)
                                           then tp_imageName params else None)\<rparr>;
               w2 = (if gh_dispatch_ok env
                     then w1\<lparr>w_dispatches := w_dispatches w1 @ [inputs]\<rparr> else w1);
               repo = ''https://github.com/'' @ show_opt (tp_repoOwner params) @ ''/'' @
                        show_opt (tp_repoName params)
           in Inr (w2, \<lparr>tr_tagName = tp_tagName params,
                         tr_tagUrl = repo @ ''/releases/tag/'' @ tp_tagName params,
                         tr_workflowRunUrl = repo @ ''/actions''\<rparr>)))"

definition createTagWorkflowNode ::
  "Env \<Rightarrow> World \<Rightarrow> RemediationState \<Rightarrow> World \<times> StateUpdate" where
  "createTagWorkflowNode env w state =
     (let vuln = vulnerability state;
          stamp = take 19 (dash_time (toISOString env (w_now w)));
          tag = ''rebuild/'' @ slug (toLowerCase (v_cveId vuln)) @ ''-'' @ stamp
      in case createApprovalTagWorkflow env w
                \<lparr>tp_tagName = tag, tp_cveId = v_cveId vuln,
                 tp_message = ''Container rebuild for '' @ v_cveId vuln @ nl @ nl @
                                proposedFix state,
                 tp_imageName = v_imageName vuln,
                 tp_repoOwner = None, tp_repoName = None,
                 tp_vulnId = None, tp_callbackUrl = None\<rparr> of
           Inr (w', result) \<Rightarrow>
             (w', no_update\<lparr>u_tagName := Some (tr_tagName result),
                    u_workflowRunUrl := Some (tr_workflowRunUrl result),
                    u_status := Some Awaiting_approval,
                    u_stepLog := Some [logEntry (w_now w) ''createTagWorkflow''
                       (''Tag '' @ dquote @ tr_tagName result @ dquote @
                        '' created. Workflow triggered '' @ em_dash @
                        '' awaiting user approval at '' @ tr_workflowRunUrl result)
                       Completed]\<rparr>)
         | Inl msg \<Rightarrow>
             (w, failed_update (w_now w) ''createTagWorkflow''
                   (''Failed to create tag/workflow: '' @ msg)
                   (''Tag creation failed: '' @ msg)))"

definition storeInRAG :: "Env \<Rightarrow> World \<Rightarrow> RemediationState \<Rightarrow> World \<times> StateUpdate" where
  "storeInRAG env w state =
     (let vuln = vulnerability state;
          fix = \<lparr>sfx_id = uuidv4 env, sfx_cveId = v_cveId vuln,
                 sfx_category = (case category state of None \<Rightarrow> Code | Some c \<Rightarrow> c),
                 sfx_packageName = v_packageName vuln,
                 sfx_fixDescription = proposedFix state,
                 sfx_fixSteps = fixSteps state,
                 sfx_patchContent = or_undefined (patchContent state),
                 sfx_dockerfileChanges = or_undefined (dockerfileChanges state),
                 sfx_prUrl = or_undefined (prUrl state),
                 sfx_tagName = or_undefined (tagName state),
                 sfx_resolvedAt = w_now w\<rparr>
      in case storeFix_error env of
           None \<Rightarrow>
             (w\<lparr>w_fixes := w_fixes w @ [fix]\<rparr>,
              no_update\<lparr>u_status := Some Resolved,
                u_stepLog := Some [logEntry (w_now w) ''storeInRAG''
                   ''Fix stored in RAG database for future reuse.'' Completed]\<rparr>)
         | Some msg \<Rightarrow>
             (w, no_update\<lparr>u_status := Some Resolved,
                   u_stepLog := Some [logEntry (w_now w) ''storeInRAG''
                      (''Fix applied but RAG storage failed: '' @ msg) StepFailed]\<rparr>))"

text \<open>
  Modelled from the spec: \<^verbatim>\<open>verifyRebuildResult\<close>, which the graph imports from
  \<^verbatim>\<open>agentNodes.js\<close> and which is missing from the file. The spec's section on rebuild
  verification: the verdict is true iff the build succeeded and no residual finding has
  the target CVE; \<^verbatim>\<open>rebuildVerified\<close> is set once a payload is looked at; without a
  payload the stage still runs, with both flags false and an error. A failed verification
  ends the run as failed.
\<close>

definition verifyRebuildResult :: "nat \<Rightarrow> RemediationState \<Rightarrow> StateUpdate" where
  "verifyRebuildResult now state =
     (case rebuildScanResult state of
        None \<Rightarrow>
          (failed_update now ''verifyRebuildResult''
             ''No rebuild scan result received.'' ''No rebuild scan result to verify.'')
          \<lparr>u_rebuildVerified := Some False, u_rebuildSuccessful := Some False\<rparr>
      | Some scan \<Rightarrow>
          (let targetCveId = v_cveId (vulnerability state);
               cveStillPresent =
                 list_ex (\<lambda>f. sf_cveId f = targetCveId) (vulnerabilities (scanResults scan));
               ok = (buildSuccess scan \<and> \<not> cveStillPresent)
           in if ok
              then no_update\<lparr>u_rebuildVerified := Some True,
                     u_rebuildSuccessful := Some True,
                     u_status := Some Verifying_rebuild,
                     u_stepLog := Some [logEntry now ''verifyRebuildResult''
                        (''Rebuild verified: '' @ targetCveId @ '' is no longer present.'')
                        Completed]\<rparr>
              else (failed_update now ''verifyRebuildResult''
                      (''Rebuild did not fix '' @ targetCveId)
                      (''Rebuild verification failed for '' @ targetCveId))
                   \<lparr>u_rebuildVerified := Some True, u_rebuildSuccessful := Some False\<rparr>))"

section \<open>The graph (\<^verbatim>\<open>buildRemediationAgentMap\<close>)\<close>

definition run_node ::
  "Env \<Rightarrow> graph_node \<Rightarrow> World \<Rightarrow> RemediationState \<Rightarrow> string + World \<times> StateUpdate" where
  "run_node env n w state =
     (case n of
        ClassifyVuln \<Rightarrow> map_sum id (Pair w) (classifyVuln (w_now w) (llm_classify env) state)
      | TryRebuild \<Rightarrow> map_sum id (Pair w) (tryRebuild (w_now w) (llm_rebuild env) state)
      | SearchRAG \<Rightarrow> Inr (w, searchRAG (w_now w) (searchFixes env) state)
      | ResearchFix \<Rightarrow> map_sum id (Pair w) (researchFix (w_now w) (llm_research env) state)
      | CreatePR \<Rightarrow> Inr (createPRNode env w state)
      | CreateTagWorkflow \<Rightarrow> Inr (createTagWorkflowNode env w state)
      | VerifyRebuildResult \<Rightarrow> Inr (w, verifyRebuildResult (w_now w) state)
      | StoreInRAG \<Rightarrow> Inr (storeInRAG env w state))"

text \<open>
  The edges. \<open>None\<close> is \<^verbatim>\<open>END\<close>. The conditional edges read the state after the node's
  return value has been applied.
\<close>

definition next_node :: "graph_node \<Rightarrow> RemediationState \<Rightarrow> graph_node option" where
  "next_node n state =
     (case n of
        ClassifyVuln \<Rightarrow>
          if category state = Some Container then Some TryRebuild else Some SearchRAG
      | TryRebuild \<Rightarrow>
          if rebuildWouldFix state = Some True then Some CreateTagWorkflow else Some SearchRAG
      | SearchRAG \<Rightarrow>
          (let isContainer = (category state = Some Container)
           in if ragFixApplicable state \<and> isContainer then Some CreateTagWorkflow
              else if ragFixApplicable state \<and> \<not> isContainer then Some CreatePR
              else Some ResearchFix)
      | ResearchFix \<Rightarrow>
          if category state = Some Container then Some CreateTagWorkflow else Some CreatePR
      | CreatePR \<Rightarrow> Some StoreInRAG
      | CreateTagWorkflow \<Rightarrow> Some VerifyRebuildResult
      | VerifyRebuildResult \<Rightarrow> if rebuildSuccessful state then Some StoreInRAG else None
      | StoreInRAG \<Rightarrow> None)"

text \<open>How far a node is from the end of the graph at most; the graph has no cycle.\<close>

definition rank :: "graph_node \<Rightarrow> nat" where
  "rank n =
     (case n of ClassifyVuln \<Rightarrow> 7 | TryRebuild \<Rightarrow> 6 | SearchRAG \<Rightarrow> 5 | ResearchFix \<Rightarrow> 4
      | CreatePR \<Rightarrow> 3 | CreateTagWorkflow \<Rightarrow> 3 | VerifyRebuildResult \<Rightarrow> 2 | StoreInRAG \<Rightarrow> 1)"

text \<open>
  One node after the other from \<open>n\<close>: the node runs after its delay, its return value is
  reduced into the state, the edge picks the next node. The result is the nodes run, the
  world and the state at \<^verbatim>\<open>END\<close>, or the error of a node that threw.
\<close>

function run_from ::
  "Env \<Rightarrow> graph_node \<Rightarrow> World \<Rightarrow> RemediationState \<Rightarrow>
     string + graph_node list \<times> World \<times> RemediationState" where
  "run_from env n w state =
     (case run_node env n (w\<lparr>w_now := w_now w + delay env n\<rparr>) state of
        Inl err \<Rightarrow> Inl err
      | Inr (w', upd) \<Rightarrow>
          (case next_node n (apply_update state upd) of
             None \<Rightarrow> Inr ([n], w', apply_update state upd)
           | Some n' \<Rightarrow>
               (case run_from env n' w' (apply_update state upd) of
                  Inl err \<Rightarrow> Inl err
                | Inr (ns, w'', state') \<Rightarrow> Inr (n # ns, w'', state'))))"
  by pat_completeness auto
termination
proof (relation "measure (\<lambda>(env, n, w, state). rank n)")
  show "wf (measure (\<lambda>(env, n, w, state). rank n))" by simp
next
  fix env n w state x2 x y n'
  assume "next_node n (apply_update state y) = Some n'"
  then have "rank n' < rank n"
    by (cases n) (auto simp: next_node_def rank_def Let_def split: if_splits)
  then show "((env, n', x, apply_update state y), env, n, w, state)
       \<in> measure (\<lambda>(env, n, w, state). rank n)"
    by simp
qed

text \<open>\<^verbatim>\<open>graph.invoke({ vulnerability })\<close>: from the start node on the channel defaults.\<close>

definition invoke ::
  "Env \<Rightarrow> World \<Rightarrow> Vulnerability \<Rightarrow> string + graph_node list \<times> World \<times> RemediationState" where
  "invoke env w vuln = run_from env ClassifyVuln w (initial_state vuln)"

subsection \<open>Sample vulnerabilities of \<^verbatim>\<open>manualValidation.ts\<close>\<close>

definition sampleCodeVuln :: Vulnerability where
  "sampleCodeVuln =
     \<lparr>v_id = ''test-vuln-code-001'', v_cveId = ''CVE-2024-29041'',
      v_packageName = ''express'', v_currentVersion = ''4.18.2'',
      v_fixedVersion = Some ''4.19.2'', v_severity = High,
      v_description = ''Open redirect vulnerability in Express.js allows attackers to redirect users to malicious sites'',
      v_source = ''snyk'', v_imageName = None, v_filePath = Some ''package.json'',
      v_createdAt = ''2024-02-09T00:00:00.000Z'',
      v_repoOwner = Some ''test-org'', v_repoName = Some ''test-repo''\<rparr>"

definition sampleContainerVuln :: Vulnerability where
  "sampleContainerVuln =
     \<lparr>v_id = ''test-vuln-container-001'', v_cveId = ''CVE-2023-4911'',
      v_packageName = ''glibc'', v_currentVersion = ''2.34-0ubuntu3'',
      v_fixedVersion = Some ''2.34-0ubuntu3.2'', v_severity = Critical,
      v_description = ''Buffer overflow in GNU C Library (glibc) allows local privilege escalation'',
      v_source = ''trivy'', v_imageName = Some ''ubuntu:22.04'', v_filePath = None,
      v_createdAt = ''2024-02-09T00:00:00.000Z'',
      v_repoOwner = Some ''test-org'', v_repoName = Some ''test-repo''\<rparr>"

text \<open>The same container finding reported by another scanner.\<close>

definition grypeContainerVuln :: Vulnerability where
  "grypeContainerVuln = sampleContainerVuln\<lparr>v_source := ''grype''\<rparr>"

subsection \<open>Sample collaborators\<close>

text \<open>
  A run in which the model answers that the finding is a code dependency, retrieval finds
  nothing, and research describes a fix without giving patch content.
\<close>

definition code_run_env :: Env where
  "code_run_env =
     \<lparr>llm_classify = Json \<lparr>cj_category = Some ''code'', cj_reason = Some ''npm dependency''\<rparr>,
      llm_rebuild = Unparseable [],
      llm_research = Json \<lparr>xj_fixDescription = Some ''Upgrade express to 4.19.2'',
         xj_fixSteps = Some ''npm install express@4.19.2'',
         xj_patchContent = None, xj_dockerfileChanges = None\<rparr>,
      searchFixes = (\<lambda>cve pkg. Inr []),
      gh_createPullRequest =
        (\<lambda>params. if pp_repoOwner params = Some ''test-org'' \<and>
                      pp_repoName params = Some ''test-repo''
                   then Inr (''https://github.com/test-org/test-repo/pull/1'', 1)
                   else Inl ''Not Found''),
      gh_tag =
        (\<lambda>owner repo. if owner = Some ''test-org'' \<and> repo = Some ''test-repo''
                       then Inr ''main'' else Inl ''Not Found''),
      gh_dispatch_ok = True,
      storeFix_error = None,
      uuidv4 = ''3b241101-e2bb-4255-8caf-4136c566a962'',
      toISOString = (\<lambda>t. ''2024-02-09T00:00:00.000Z''),
      delay = (\<lambda>n. 1)\<rparr>"

text \<open>
  A run in which the model answers that the finding is in the container image and that a
  rebuild alone fixes it; the tag and the dispatch go through.
\<close>

definition container_run_env :: Env where
  "container_run_env =
     code_run_env\<lparr>llm_classify :=
         Json \<lparr>cj_category = Some ''container'', cj_reason = Some ''OS package''\<rparr>,
       llm_rebuild :=
         Json \<lparr>rj_rebuildWouldFix = Some True, rj_reason = Some ''patched in base image''\<rparr>\<rparr>"

definition empty_world :: World where
  "empty_world = \<lparr>w_now = 0, w_store = empty_store, w_pull_requests = [], w_tags = [],
     w_dispatches = [], w_fixes = []\<rparr>"

text \<open>The name under which \<^verbatim>\<open>addNode\<close> registers a node; the node logs under it.\<close>

definition node_name :: "graph_node \<Rightarrow> string" where
  "node_name n =
     (case n of ClassifyVuln \<Rightarrow> ''classifyVuln'' | TryRebuild \<Rightarrow> ''tryRebuild''
      | SearchRAG \<Rightarrow> ''searchRAG'' | ResearchFix \<Rightarrow> ''researchFix''
      | CreatePR \<Rightarrow> ''createPR'' | CreateTagWorkflow \<Rightarrow> ''createTagWorkflow''
      | VerifyRebuildResult \<Rightarrow> ''verifyRebuildResult'' | StoreInRAG \<Rightarrow> ''storeInRAG'')"


section \<open>The tag stage with its wait\<close>









section \<open>Properties of the pending-rebuild store\<close>

lemma store_inv_empty: "store_inv empty_store"
  by (simp add: store_inv_def empty_store_def entries_ok_def promises_unique_def
      timers_ok_def completions_ok_def)

lemma entries_okD:
  "entries_ok st \<Longrightarrow> map_of (pending st) k = Some e \<Longrightarrow>
     pr_vulnId e = k \<and> pr_promise e < next_promise st \<and> pr_timeoutId e < next_timer st \<and>
        pr_promise e \<notin> fst ` set (completions st) \<and>
        (\<exists>t \<in> set (timers st). t_id t = pr_timeoutId e \<and> t_vulnId t = k)"
  unfolding entries_ok_def by (erule allE[of _ k], erule allE[of _ e]) simp

lemma promises_uniqueD:
  "promises_unique st \<Longrightarrow> map_of (pending st) k = Some e \<Longrightarrow> map_of (pending st) k' = Some e' \<Longrightarrow>
     pr_promise e = pr_promise e' \<Longrightarrow> k = k'"
  unfolding promises_unique_def by blast

lemma timers_okD:
  "timers_ok st \<Longrightarrow> t \<in> set (timers st) \<Longrightarrow>
     t_id t < next_timer st \<and>
        (\<exists>e. map_of (pending st) (t_vulnId t) = Some e \<and> pr_timeoutId e = t_id t \<and>
             pr_promise e = t_promise t \<and> pr_cveId e = t_cveId t)"
  unfolding timers_ok_def by blast

lemma drop_entry_fields [simp]:
  "pending (drop_entry v e r st) = AList.delete v (pending st)"
  "timers (drop_entry v e r st) = filter (\<lambda>t. t_id t \<noteq> pr_timeoutId e) (timers st)"
  "completions (drop_entry v e r st) = completions st @ [(pr_promise e, r)]"
  "next_promise (drop_entry v e r st) = next_promise st"
  "next_timer (drop_entry v e r st) = next_timer st"
  "clock (drop_entry v e r st) = clock st"
  by (simp_all add: drop_entry_def settle_def clearTimeout_def)

lemma timer_of_entry_unique:
  assumes "store_inv st" "map_of (pending st) k = Some e" "map_of (pending st) k' = Some e'"
    and "pr_timeoutId e = pr_timeoutId e'"
  shows "k = k'"
proof -
  have eo: "entries_ok st" using assms(1) by (simp add: store_inv_def)
  from entries_okD[OF eo assms(2)] obtain t
    where t: "t \<in> set (timers st)" "t_id t = pr_timeoutId e" "t_vulnId t = k" by blast
  from entries_okD[OF eo assms(3)] obtain t'
    where t': "t' \<in> set (timers st)" "t_id t' = pr_timeoutId e'" "t_vulnId t' = k'" by blast
  from assms(1) have "inj_on t_id (set (timers st))"
    by (simp add: store_inv_def distinct_map)
  moreover have "t_id t = t_id t'" using t t' assms(4) by simp
  ultimately have "t = t'" using t(1) t'(1) by (rule inj_onD)
  with t t' show ?thesis by simp
qed

lemma map_of_delete_Some:
  "map_of (AList.delete v al) k = Some e \<longleftrightarrow> k \<noteq> v \<and> map_of al k = Some e"
  by (simp add: AList.delete_conv')

lemma store_inv_drop_entry:
  assumes inv: "store_inv st" and e: "map_of (pending st) v = Some e"
  shows "store_inv (drop_entry v e r st)"
proof -
  let ?st = "drop_entry v e r st"
  have eo: "entries_ok st" and pu: "promises_unique st" and tk: "timers_ok st"
    and co: "completions_ok st"
    using inv by (simp_all add: store_inv_def)
  note ee = entries_okD[OF eo e]
  have c1: "distinct (map fst (pending ?st))"
    using inv by (simp add: store_inv_def AList.distinct_delete)
  have c2: "distinct (map t_id (timers ?st))"
    using inv by (simp add: store_inv_def distinct_map_filter)
  have c3: "completions_ok ?st"
    using co ee by (auto simp: completions_ok_def)
  have c4: "entries_ok ?st"
    unfolding entries_ok_def
  proof (intro allI impI)
    fix k e2 assume "map_of (pending ?st) k = Some e2"
    then have k: "k \<noteq> v" "map_of (pending st) k = Some e2"
      by (simp_all add: map_of_delete_Some)
    have p: "pr_promise e2 \<noteq> pr_promise e"
      using promises_uniqueD[OF pu k(2) e] k(1) by blast
    have t: "pr_timeoutId e2 \<noteq> pr_timeoutId e"
      using timer_of_entry_unique[OF inv k(2) e] k(1) by blast
    from entries_okD[OF eo k(2)] p t
    show "pr_vulnId e2 = k \<and> pr_promise e2 < next_promise ?st \<and> pr_timeoutId e2 < next_timer ?st \<and>
        pr_promise e2 \<notin> fst ` set (completions ?st) \<and>
        (\<exists>t \<in> set (timers ?st). t_id t = pr_timeoutId e2 \<and> t_vulnId t = k)"
      by auto
  qed
  have c5: "promises_unique ?st"
    unfolding promises_unique_def
  proof (intro allI impI)
    fix k k' e1 e2
    assume a: "map_of (pending ?st) k = Some e1" "map_of (pending ?st) k' = Some e2"
      "pr_promise e1 = pr_promise e2"
    then have "map_of (pending st) k = Some e1" "map_of (pending st) k' = Some e2"
      by (simp_all add: map_of_delete_Some)
    then show "k = k'" using a(3) by (rule promises_uniqueD[OF pu])
  qed
  have c6: "timers_ok ?st"
    unfolding timers_ok_def
  proof
    fix t assume "t \<in> set (timers ?st)"
    then have t: "t \<in> set (timers st)" "t_id t \<noteq> pr_timeoutId e" by simp_all
    from timers_okD[OF tk t(1)] obtain e2 where e2: "t_id t < next_timer st"
      "map_of (pending st) (t_vulnId t) = Some e2" "pr_timeoutId e2 = t_id t"
      "pr_promise e2 = t_promise t" "pr_cveId e2 = t_cveId t"
      by blast
    have "t_vulnId t \<noteq> v" using e e2 t(2) by auto
    with e2 show "t_id t < next_timer ?st \<and>
        (\<exists>e2. map_of (pending ?st) (t_vulnId t) = Some e2 \<and> pr_timeoutId e2 = t_id t \<and>
             pr_promise e2 = t_promise t \<and> pr_cveId e2 = t_cveId t)"
      by (simp add: map_of_delete_Some)
  qed
  show ?thesis
    unfolding store_inv_def using c1 c2 c3 c4 c5 c6 by simp
qed


lemma supersede_eq:
  "supersede v st =
     (case map_of (pending st) v of None \<Rightarrow> st
      | Some existing \<Rightarrow> drop_entry v existing (Rejected ''Superseded by new rebuild'') st)"
  by (cases "map_of (pending st) v") (simp_all add: supersede_def drop_entry_def)

lemma resolvePendingRebuild_eq:
  "resolvePendingRebuild v r st =
     (case map_of (pending st) v of None \<Rightarrow> (False, st)
      | Some entry \<Rightarrow> (True, drop_entry v entry (Fulfilled r) st))"
  by (cases "map_of (pending st) v") (simp_all add: resolvePendingRebuild_def drop_entry_def)

lemma store_inv_supersede: "store_inv st \<Longrightarrow> store_inv (supersede v st)"
  by (simp add: supersede_eq store_inv_drop_entry split: option.split)

lemma supersede_absent: "map_of (pending (supersede v st)) v = None"
  by (simp add: supersede_eq AList.delete_conv' split: option.split)

lemma store_inv_resolve: "store_inv st \<Longrightarrow> store_inv (snd (resolvePendingRebuild v r st))"
  by (simp add: resolvePendingRebuild_eq store_inv_drop_entry split: option.split)

lemma find_SomeD: "find P xs = Some x \<Longrightarrow> x \<in> set xs \<and> P x"
  by (induction xs) (auto split: if_splits)

lemma fire_eq:
  assumes inv: "store_inv st"
  shows "fire tid st =
     (case find (\<lambda>t. t_id t = tid) (timers st) of None \<Rightarrow> st
      | Some t \<Rightarrow> if clock st < t_deadline t then st
                  else (case map_of (pending st) (t_vulnId t) of None \<Rightarrow> st
                        | Some e \<Rightarrow> drop_entry (t_vulnId t) e
                                      (Rejected (timeout_message (t_cveId t))) st))"
proof (cases "find (\<lambda>t. t_id t = tid) (timers st)")
  case None
  then show ?thesis by (simp add: fire_def)
next
  case (Some t)
  then have t: "t \<in> set (timers st)" "t_id t = tid" by (auto dest: find_SomeD)
  have tk: "timers_ok st" using inv by (simp add: store_inv_def)
  from timers_okD[OF tk t(1)] obtain e where e:
    "map_of (pending st) (t_vulnId t) = Some e" "pr_timeoutId e = t_id t"
    "pr_promise e = t_promise t" by blast
  show ?thesis
    using Some e t(2)
    by (simp add: fire_def timer_callback_def drop_entry_def settle_def)
qed

lemma store_inv_fire: "store_inv st \<Longrightarrow> store_inv (fire tid st)"
  by (simp add: fire_eq store_inv_drop_entry split: option.split)

lemma store_inv_advance_eq: "store_inv (advance d st) = store_inv st"
  by (simp add: advance_def store_inv_def entries_ok_def promises_unique_def
      timers_ok_def completions_ok_def)

lemma store_inv_advance: "store_inv st \<Longrightarrow> store_inv (advance d st)"
  by (simp add: store_inv_advance_eq)

lemma registerPendingRebuild_eq:
  "registerPendingRebuild params st =
     (next_promise (supersede (rp_vulnId params) st),
      add_entry params (supersede (rp_vulnId params) st))"
  by (simp add: registerPendingRebuild_def add_entry_def Let_def)

lemma store_inv_add_entry:
  assumes inv: "store_inv st" and absent: "map_of (pending st) (rp_vulnId p) = None"
  shows "store_inv (add_entry p st)"
proof -
  let ?st = "add_entry p st"
  have eo: "entries_ok st" and pu: "promises_unique st" and tk: "timers_ok st"
    and co: "completions_ok st"
    using inv by (simp_all add: store_inv_def)
  have c1: "distinct (map fst (pending ?st))"
    using inv by (simp add: store_inv_def add_entry_def AList.distinct_update)
  have tb: "\<forall>t \<in> set (timers st). t_id t < next_timer st"
    using tk by (simp add: timers_ok_def)
  have c2: "distinct (map t_id (timers ?st))"
    using inv tb by (auto simp: store_inv_def add_entry_def)
  have c3: "completions_ok ?st"
    using co by (auto simp: completions_ok_def add_entry_def)
  have c4: "entries_ok ?st"
    unfolding entries_ok_def
  proof (intro allI impI)
    fix k e2 assume a: "map_of (pending ?st) k = Some e2"
    show "pr_vulnId e2 = k \<and> pr_promise e2 < next_promise ?st \<and> pr_timeoutId e2 < next_timer ?st \<and>
        pr_promise e2 \<notin> fst ` set (completions ?st) \<and>
        (\<exists>t \<in> set (timers ?st). t_id t = pr_timeoutId e2 \<and> t_vulnId t = k)"
    proof (cases "k = rp_vulnId p")
      case True
      with a co show ?thesis
        by (auto simp: add_entry_def AList.update_conv' completions_ok_def)
    next
      case False
      with a have "map_of (pending st) k = Some e2"
        by (simp add: add_entry_def AList.update_conv')
      from entries_okD[OF eo this] show ?thesis
        by (auto simp: add_entry_def)
    qed
  qed
  have c5: "promises_unique ?st"
    unfolding promises_unique_def
  proof (intro allI impI)
    fix k k' e1 e2
    assume a: "map_of (pending ?st) k = Some e1" "map_of (pending ?st) k' = Some e2"
      "pr_promise e1 = pr_promise e2"
    have old: "\<And>k e. k \<noteq> rp_vulnId p \<Longrightarrow> map_of (pending ?st) k = Some e \<Longrightarrow>
       map_of (pending st) k = Some e \<and> pr_promise e < next_promise st"
      using eo by (auto simp: add_entry_def AList.update_conv' dest: entries_okD)
    have new: "\<And>e. map_of (pending ?st) (rp_vulnId p) = Some e \<Longrightarrow> pr_promise e = next_promise st"
      by (auto simp: add_entry_def AList.update_conv')
    show "k = k'"
    proof (cases "k = rp_vulnId p"; cases "k' = rp_vulnId p")
      assume "k \<noteq> rp_vulnId p" "k' \<noteq> rp_vulnId p"
      with old a show ?thesis using promises_uniqueD[OF pu] by blast
    next
      assume "k = rp_vulnId p" "k' \<noteq> rp_vulnId p"
      with old[of k' e2] new[of e1] a show ?thesis by auto
    next
      assume "k \<noteq> rp_vulnId p" "k' = rp_vulnId p"
      with old[of k e1] new[of e2] a show ?thesis by auto
    qed simp
  qed
  have c6: "timers_ok ?st"
    unfolding timers_ok_def
  proof
    fix t assume "t \<in> set (timers ?st)"
    then consider (old) "t \<in> set (timers st)"
      | (new) "t = \<lparr>t_id = next_timer st, t_deadline = clock st + REBUILD_TIMEOUT_MS,
              t_vulnId = rp_vulnId p, t_cveId = rp_cveId p, t_promise = next_promise st\<rparr>"
      by (auto simp: add_entry_def)
    then show "t_id t < next_timer ?st \<and>
        (\<exists>e2. map_of (pending ?st) (t_vulnId t) = Some e2 \<and> pr_timeoutId e2 = t_id t \<and>
             pr_promise e2 = t_promise t \<and> pr_cveId e2 = t_cveId t)"
    proof cases
      case old
      from timers_okD[OF tk old] obtain e2 where e2: "t_id t < next_timer st"
        "map_of (pending st) (t_vulnId t) = Some e2" "pr_timeoutId e2 = t_id t"
        "pr_promise e2 = t_promise t" "pr_cveId e2 = t_cveId t"
        by blast
      have "t_vulnId t \<noteq> rp_vulnId p" using e2(2) absent by auto
      with e2 show ?thesis by (simp add: add_entry_def AList.update_conv')
    next
      case new
      then show ?thesis by (simp add: add_entry_def AList.update_conv')
    qed
  qed
  show ?thesis
    unfolding store_inv_def using c1 c2 c3 c4 c5 c6 by simp
qed

lemma store_inv_register: "store_inv st \<Longrightarrow> store_inv (snd (registerPendingRebuild p st))"
  by (simp add: registerPendingRebuild_eq store_inv_add_entry store_inv_supersede supersede_absent)

lemma store_inv_step: "store_inv st \<Longrightarrow> store_inv (store_step ev st)"
  by (cases ev) (simp_all add: store_inv_register store_inv_resolve store_inv_fire store_inv_advance)

lemma store_inv_run: "store_inv st \<Longrightarrow> store_inv (store_run evs st)"
  by (induction evs arbitrary: st) (simp_all add: store_inv_step)


lemma store_inv_reachable: "store_inv (store_run evs empty_store)"
  by (simp add: store_inv_run store_inv_empty)

lemma add_entry_fields [simp]:
  "timers (add_entry p st) = timers st @
     [\<lparr>t_id = next_timer st, t_deadline = clock st + REBUILD_TIMEOUT_MS,
       t_vulnId = rp_vulnId p, t_cveId = rp_cveId p, t_promise = next_promise st\<rparr>]"
  "completions (add_entry p st) = completions st"
  "clock (add_entry p st) = clock st"
  "next_timer (add_entry p st) = Suc (next_timer st)"
  "next_promise (add_entry p st) = Suc (next_promise st)"
  by (simp_all add: add_entry_def)

lemma map_of_add_entry_same:
  "map_of (pending (add_entry p st)) (rp_vulnId p) =
     Some \<lparr>pr_vulnId = rp_vulnId p, pr_cveId = rp_cveId p,
             pr_repoOwner = rp_repoOwner p, pr_repoName = rp_repoName p,
             pr_tagName = rp_tagName p, pr_createdAt = clock st,
             pr_promise = next_promise st, pr_timeoutId = next_timer st\<rparr>"
  by (simp add: add_entry_def AList.update_conv')

lemma count_key_update:
  "length (filter (\<lambda>x. fst x = k) (AList.update k v al)) =
     (if k \<in> fst ` set al then length (filter (\<lambda>x. fst x = k) al) else 1)"
  by (induction al) auto

lemma count_key_fresh:
  "map_of al k = None \<Longrightarrow> length (filter (\<lambda>x. fst x = k) (AList.update k v al)) = 1"
  by (simp add: count_key_update map_of_eq_None_iff)

lemma entry_key:
  assumes "store_inv st" "(k, e) \<in> set (pending st)"
  shows "pr_vulnId e = k"
proof -
  from assms have "map_of (pending st) k = Some e"
    by (simp add: store_inv_def)
  with assms(1) show ?thesis
    using entries_okD[of st k e] by (simp add: store_inv_def)
qed

lemma list_count:
  assumes "store_inv st"
  shows "length (filter (\<lambda>i. pi_vulnId i = v) (listPendingRebuilds st)) =
         length (filter (\<lambda>x. fst x = v) (pending st))"
proof -
  have "filter (\<lambda>x. pr_vulnId (snd x) = v) (pending st) = filter (\<lambda>x. fst x = v) (pending st)"
    by (rule filter_cong) (auto dest: entry_key[OF assms])
  then show ?thesis
    by (simp add: listPendingRebuilds_def filter_map o_def case_prod_unfold)
qed

lemma list_absent:
  assumes "store_inv st" "map_of (pending st) v = None"
  shows "v \<notin> pi_vulnId ` set (listPendingRebuilds st)"
proof
  assume "v \<in> pi_vulnId ` set (listPendingRebuilds st)"
  then obtain k e where ke: "(k, e) \<in> set (pending st)" "pr_vulnId e = v"
    by (auto simp: listPendingRebuilds_def)
  with entry_key[OF assms(1) ke(1)] have "(v, e) \<in> set (pending st)" by simp
  then have "v \<in> fst ` set (pending st)" by force
  with assms(2) show False by (simp add: map_of_eq_None_iff)
qed


lemma find_distinct_id:
  "distinct (map t_id ts) \<Longrightarrow> t \<in> set ts \<Longrightarrow> find (\<lambda>x. t_id x = t_id t) ts = Some t"
  by (induction ts) (auto simp: image_iff)

lemma fire_not_armed: "tid \<notin> t_id ` set (timers st) \<Longrightarrow> fire tid st = st"
proof -
  assume "tid \<notin> t_id ` set (timers st)"
  then have "find (\<lambda>t. t_id t = tid) (timers st) = None"
    by (auto simp: find_None_iff)
  then show ?thesis by (simp add: fire_def)
qed

lemma advance_fields [simp]:
  "timers (advance d st) = timers st"
  "pending (advance d st) = pending st"
  "completions (advance d st) = completions st"
  "clock (advance d st) = clock st + d"
  by (simp_all add: advance_def)

lemma timeout_message_eq: "timeout_message cve = ''Rebuild timed out after 1800s for '' @ cve"
  by (simp add: timeout_message_def REBUILD_TIMEOUT_MS_def digit_char_def)

lemma timer_callback_absent:
  "map_of (pending st) (t_vulnId t) = None \<Longrightarrow> timer_callback t st = st"
  by (simp add: timer_callback_def)

lemma register_arms_timer:
  assumes inv: "store_inv st" and reg: "registerPendingRebuild p st = (h, st')"
  shows "\<exists>t e. t \<in> set (timers st') \<and> map_of (pending st') (rp_vulnId p) = Some e \<and>
           t_id t = pr_timeoutId e \<and> t_promise t = h \<and> pr_promise e = h \<and>
           t_vulnId t = rp_vulnId p \<and>
           t_deadline t = clock st + 30 * 60 * 1000 \<and>
           (\<forall>d < 30 * 60 * 1000. fire (t_id t) (advance d st') = advance d st')"
proof -
  let ?s1 = "supersede (rp_vulnId p) st"
  let ?t = "\<lparr>t_id = next_timer ?s1, t_deadline = clock ?s1 + REBUILD_TIMEOUT_MS,
       t_vulnId = rp_vulnId p, t_cveId = rp_cveId p, t_promise = next_promise ?s1\<rparr>"
  have h: "h = next_promise ?s1" and st': "st' = add_entry p ?s1"
    using reg by (simp_all add: registerPendingRebuild_eq)
  have clk: "clock ?s1 = clock st"
    by (simp add: supersede_eq split: option.split)
  have inv': "store_inv st'"
    unfolding st'
    by (rule store_inv_add_entry[OF store_inv_supersede[OF inv] supersede_absent])
  have mem: "?t \<in> set (timers st')" by (simp add: st')
  have dist: "distinct (map t_id (timers st'))" using inv' by (simp add: store_inv_def)
  have fnd: "find (\<lambda>x. t_id x = t_id ?t) (timers st') = Some ?t"
    by (rule find_distinct_id[OF dist mem])
  have early: "fire (t_id ?t) (advance d st') = advance d st'" if "d < 30 * 60 * 1000" for d
    using that fnd by (simp add: fire_def st' clk REBUILD_TIMEOUT_MS_def)
  have "map_of (pending st') (rp_vulnId p) =
     Some \<lparr>pr_vulnId = rp_vulnId p, pr_cveId = rp_cveId p,
             pr_repoOwner = rp_repoOwner p, pr_repoName = rp_repoName p,
             pr_tagName = rp_tagName p, pr_createdAt = clock ?s1,
             pr_promise = next_promise ?s1, pr_timeoutId = next_timer ?s1\<rparr>"
    unfolding st' by (rule map_of_add_entry_same)
  with mem early show ?thesis
    by (intro exI[of _ ?t] exI[of _ "\<lparr>pr_vulnId = rp_vulnId p, pr_cveId = rp_cveId p,
             pr_repoOwner = rp_repoOwner p, pr_repoName = rp_repoName p,
             pr_tagName = rp_tagName p, pr_createdAt = clock ?s1,
             pr_promise = next_promise ?s1, pr_timeoutId = next_timer ?s1\<rparr>"])
       (simp add: h clk REBUILD_TIMEOUT_MS_def)
qed

lemma fire_due:
  assumes inv: "store_inv st" and t: "t \<in> set (timers st)" and due: "t_deadline t \<le> clock st"
  shows "\<exists>e. map_of (pending st) (t_vulnId t) = Some e \<and> pr_timeoutId e = t_id t \<and>
            completions (fire (t_id t) st) = completions st @
               [(pr_promise e, Rejected (''Rebuild timed out after 1800s for '' @ pr_cveId e))] \<and>
            map_of (pending (fire (t_id t) st)) (t_vulnId t) = None \<and>
            t_vulnId t \<notin> pi_vulnId ` set (listPendingRebuilds (fire (t_id t) st))"
proof -
  have tk: "timers_ok st" and dist: "distinct (map t_id (timers st))"
    using inv by (simp_all add: store_inv_def)
  from timers_okD[OF tk t] obtain e where e:
    "map_of (pending st) (t_vulnId t) = Some e" "pr_timeoutId e = t_id t"
    "pr_promise e = t_promise t" "pr_cveId e = t_cveId t" by blast
  let ?st = "drop_entry (t_vulnId t) e (Rejected (timeout_message (t_cveId t))) st"
  have f: "fire (t_id t) st = ?st"
    using find_distinct_id[OF dist t] due e(1) by (simp add: fire_eq[OF inv])
  have inv': "store_inv ?st" by (rule store_inv_drop_entry[OF inv e(1)])
  have gone: "map_of (pending ?st) (t_vulnId t) = None" by (simp add: AList.delete_conv')
  have "t_vulnId t \<notin> pi_vulnId ` set (listPendingRebuilds ?st)"
    by (rule list_absent[OF inv' gone])
  moreover have "completions ?st = completions st @
               [(pr_promise e, Rejected (''Rebuild timed out after 1800s for '' @ pr_cveId e))]"
    by (simp add: timeout_message_eq e(4))
  ultimately show ?thesis
    unfolding f using e(1,2) gone by blast
qed

lemma fire_after_resolve:
  assumes inv: "store_inv st" and e: "map_of (pending st) v = Some e"
  shows "fire (pr_timeoutId e) (advance d (snd (resolvePendingRebuild v r st))) =
           advance d (snd (resolvePendingRebuild v r st))"
proof (rule fire_not_armed)
  show "pr_timeoutId e \<notin> t_id ` set (timers (advance d (snd (resolvePendingRebuild v r st))))"
    using e by (auto simp: resolvePendingRebuild_eq)
qed

lemma fire_after_supersede:
  assumes inv: "store_inv st" and e: "map_of (pending st) (rp_vulnId p) = Some e"
  shows "fire (pr_timeoutId e) (advance d (snd (registerPendingRebuild p st))) =
           advance d (snd (registerPendingRebuild p st))"
proof (rule fire_not_armed)
  have eo: "entries_ok st" using inv by (simp add: store_inv_def)
  from entries_okD[OF eo e] have "pr_timeoutId e < next_timer st" by simp
  then show "pr_timeoutId e \<notin> t_id ` set (timers (advance d (snd (registerPendingRebuild p st))))"
    using e by (auto simp: registerPendingRebuild_eq supersede_eq)
qed


lemma sample_registered:
  "store_run [Register sampleRegisterParams] empty_store =
     \<lparr>pending = [(''test-vuln-container-001'',
         \<lparr>pr_vulnId = ''test-vuln-container-001'', pr_cveId = ''CVE-2023-4911'',
          pr_repoOwner = ''test-org'', pr_repoName = ''test-repo'',
          pr_tagName = ''rebuild/cve-2023-4911-2024-02-09T00-00-00'', pr_createdAt = 0,
          pr_promise = 0, pr_timeoutId = 0\<rparr>)],
      timers = [\<lparr>t_id = 0, t_deadline = 1800000, t_vulnId = ''test-vuln-container-001'',
          t_cveId = ''CVE-2023-4911'', t_promise = 0\<rparr>],
      completions = [], next_promise = 1, next_timer = 1, clock = 0\<rparr>"
  by (simp add: registerPendingRebuild_def supersede_def empty_store_def Let_def
      sampleRegisterParams_def REBUILD_TIMEOUT_MS_def)

section \<open>Claims about the pending-rebuild store\<close>

text \<open>
  Claim C3. Registering for a \<open>vulnId\<close> that already has a pending entry, in any store
  reached from the empty one: the old entry's timer is no longer armed, its promise has
  been rejected with the superseded error, the old entry is gone before the insertion
  happens (registering on the store and on the superseded store is the same), the new
  entry carries a fresh promise and timer, and the map and \<^verbatim>\<open>listPendingRebuilds\<close> hold
  exactly one entry for the \<open>vulnId\<close>.
\<close>

theorem register_supersedes_existing:
  assumes reach: "st = store_run evs empty_store"
    and ex: "map_of (pending st) (rp_vulnId p) = Some existing"
    and reg: "registerPendingRebuild p st = (h, st')"
  shows "pr_timeoutId existing \<notin> t_id ` set (timers st') \<and>
         completions st' =
           completions st @ [(pr_promise existing, Rejected ''Superseded by new rebuild'')] \<and>
         map_of (pending (supersede (rp_vulnId p) st)) (rp_vulnId p) = None \<and>
         registerPendingRebuild p (supersede (rp_vulnId p) st) = (h, st') \<and>
         (\<exists>e. map_of (pending st') (rp_vulnId p) = Some e \<and> pr_promise e = h \<and>
              h \<noteq> pr_promise existing \<and> pr_timeoutId e \<noteq> pr_timeoutId existing) \<and>
         length (filter (\<lambda>x. fst x = rp_vulnId p) (pending st')) = 1 \<and>
         length (filter (\<lambda>i. pi_vulnId i = rp_vulnId p) (listPendingRebuilds st')) = 1"
proof -
  let ?v = "rp_vulnId p"
  let ?s1 = "supersede ?v st"
  have inv: "store_inv st" using reach by (simp add: store_inv_reachable)
  have eo: "entries_ok st" using inv by (simp add: store_inv_def)
  note ee = entries_okD[OF eo ex]
  have s1: "?s1 = drop_entry ?v existing (Rejected ''Superseded by new rebuild'') st"
    using ex by (simp add: supersede_eq)
  have h: "h = next_promise st" and st': "st' = add_entry p ?s1"
    using reg by (simp_all add: registerPendingRebuild_eq s1)
  have absent: "map_of (pending ?s1) ?v = None" by (rule supersede_absent)
  have inv': "store_inv st'"
    unfolding st' by (rule store_inv_add_entry[OF store_inv_supersede[OF inv] absent])
  have a: "pr_timeoutId existing \<notin> t_id ` set (timers st')"
    using ee by (auto simp: st' s1)
  have b: "completions st' =
           completions st @ [(pr_promise existing, Rejected ''Superseded by new rebuild'')]"
    by (simp add: st' s1)
  have idem: "supersede ?v ?s1 = ?s1"
    using absent by (simp add: supersede_eq[of ?v ?s1])
  have "next_promise ?s1 = next_promise st" by (simp add: s1)
  then have c: "registerPendingRebuild p ?s1 = (h, st')"
    unfolding registerPendingRebuild_eq idem h st' by simp
  have d: "\<exists>e. map_of (pending st') ?v = Some e \<and> pr_promise e = h \<and>
              h \<noteq> pr_promise existing \<and> pr_timeoutId e \<noteq> pr_timeoutId existing"
    using ee by (simp add: st' map_of_add_entry_same h s1)
  have e: "length (filter (\<lambda>x. fst x = ?v) (pending st')) = 1"
    unfolding st' add_entry_def using absent by (simp add: count_key_fresh)
  have f: "length (filter (\<lambda>i. pi_vulnId i = ?v) (listPendingRebuilds st')) = 1"
    using list_count[OF inv'] e by simp
  from a b absent c d e f show ?thesis by blast
qed

theorem register_supersedes_existing_witness:
  "map_of (pending (store_run [Register \<lparr>rp_vulnId = ''v1'', rp_cveId = ''CVE-1'',
        rp_repoOwner = ''o'', rp_repoName = ''r'', rp_tagName = ''t1''\<rparr>] empty_store)) ''v1'' \<noteq> None \<and>
   length (filter (\<lambda>i. pi_vulnId i = ''v1'')
     (listPendingRebuilds (snd (registerPendingRebuild
        \<lparr>rp_vulnId = ''v1'', rp_cveId = ''CVE-1'',
          rp_repoOwner = ''o'', rp_repoName = ''r'', rp_tagName = ''t2''\<rparr>
        (store_run [Register \<lparr>rp_vulnId = ''v1'', rp_cveId = ''CVE-1'',
          rp_repoOwner = ''o'', rp_repoName = ''r'', rp_tagName = ''t1''\<rparr>] empty_store))))) = 1"
proof -
  let ?p1 = "\<lparr>rp_vulnId = ''v1'', rp_cveId = ''CVE-1'',
        rp_repoOwner = ''o'', rp_repoName = ''r'', rp_tagName = ''t1''\<rparr>"
  let ?p2 = "\<lparr>rp_vulnId = ''v1'', rp_cveId = ''CVE-1'',
        rp_repoOwner = ''o'', rp_repoName = ''r'', rp_tagName = ''t2''\<rparr>"
  let ?st = "store_run [Register ?p1] empty_store"
  let ?e = "\<lparr>pr_vulnId = ''v1'', pr_cveId = ''CVE-1'', pr_repoOwner = ''o'', pr_repoName = ''r'',
     pr_tagName = ''t1'', pr_createdAt = 0, pr_promise = 0, pr_timeoutId = 0\<rparr>"
  have ex: "map_of (pending ?st) (rp_vulnId ?p2) = Some ?e"
    by (simp add: registerPendingRebuild_def supersede_def empty_store_def Let_def)
  have reg: "registerPendingRebuild ?p2 ?st =
      (fst (registerPendingRebuild ?p2 ?st), snd (registerPendingRebuild ?p2 ?st))"
    by simp
  have v: "rp_vulnId ?p2 = ''v1''" by simp
  from register_supersedes_existing[OF refl ex reg]
  have "length (filter (\<lambda>i. pi_vulnId i = rp_vulnId ?p2)
     (listPendingRebuilds (snd (registerPendingRebuild ?p2 ?st)))) = 1"
    by (elim conjE)
  then have "length (filter (\<lambda>i. pi_vulnId i = ''v1'')
     (listPendingRebuilds (snd (registerPendingRebuild ?p2 ?st)))) = 1"
    unfolding v .
  moreover have "map_of (pending ?st) ''v1'' \<noteq> None"
    using ex unfolding v by simp
  ultimately show ?thesis by (rule conjI[rotated])
qed

text \<open>
  Claim C4. In any store reached from the empty one: resolving a \<open>vulnId\<close> that has a
  pending entry returns true, disarms the entry's timer, fulfils its promise with the
  result and removes the entry (also from \<^verbatim>\<open>listPendingRebuilds\<close>); resolving the same
  \<open>vulnId\<close> again returns false and changes nothing; resolving an unknown \<open>vulnId\<close>
  returns false and changes nothing; and no promise handle is ever settled twice.
\<close>


theorem resolve_once:
  assumes reach: "st = store_run evs empty_store"
  shows "(\<forall>e. map_of (pending st) v = Some e \<longrightarrow>
            fst (resolvePendingRebuild v r st) \<and>
            pr_timeoutId e \<notin> t_id ` set (timers (snd (resolvePendingRebuild v r st))) \<and>
            completions (snd (resolvePendingRebuild v r st)) =
              completions st @ [(pr_promise e, Fulfilled r)] \<and>
            map_of (pending (snd (resolvePendingRebuild v r st))) v = None \<and>
            v \<notin> pi_vulnId ` set (listPendingRebuilds (snd (resolvePendingRebuild v r st))) \<and>
            resolvePendingRebuild v r' (snd (resolvePendingRebuild v r st)) =
              (False, snd (resolvePendingRebuild v r st))) \<and>
         (map_of (pending st) v = None \<longrightarrow> resolvePendingRebuild v r st = (False, st)) \<and>
         distinct (map fst (completions st))"
proof -
  have inv: "store_inv st" using reach by (simp add: store_inv_reachable)
  have c: "distinct (map fst (completions st))"
    using inv by (simp add: store_inv_def completions_ok_def)
  have b: "map_of (pending st) v = None \<longrightarrow> resolvePendingRebuild v r st = (False, st)"
    by (simp add: resolvePendingRebuild_eq)
  have a: "fst (resolvePendingRebuild v r st) \<and>
            pr_timeoutId e \<notin> t_id ` set (timers (snd (resolvePendingRebuild v r st))) \<and>
            completions (snd (resolvePendingRebuild v r st)) =
              completions st @ [(pr_promise e, Fulfilled r)] \<and>
            map_of (pending (snd (resolvePendingRebuild v r st))) v = None \<and>
            v \<notin> pi_vulnId ` set (listPendingRebuilds (snd (resolvePendingRebuild v r st))) \<and>
            resolvePendingRebuild v r' (snd (resolvePendingRebuild v r st)) =
              (False, snd (resolvePendingRebuild v r st))"
    if e: "map_of (pending st) v = Some e" for e
  proof -
    let ?st = "drop_entry v e (Fulfilled r) st"
    have eq: "resolvePendingRebuild v r st = (True, ?st)"
      using e by (simp add: resolvePendingRebuild_eq)
    have inv': "store_inv ?st" by (rule store_inv_drop_entry[OF inv e])
    have gone: "map_of (pending ?st) v = None" by (simp add: AList.delete_conv')
    have "v \<notin> pi_vulnId ` set (listPendingRebuilds ?st)"
      by (rule list_absent[OF inv' gone])
    moreover have "pr_timeoutId e \<notin> t_id ` set (timers ?st)" by auto
    moreover have "resolvePendingRebuild v r' ?st = (False, ?st)"
      using gone by (simp add: resolvePendingRebuild_eq[of v r' ?st])
    ultimately show ?thesis
      using gone unfolding eq by simp
  qed
  from a b c show ?thesis by blast
qed

theorem resolve_once_witness:
  "map_of (pending (store_run [Register sampleRegisterParams] empty_store))
      ''test-vuln-container-001'' \<noteq> None \<and>
   fst (resolvePendingRebuild ''test-vuln-container-001'' sampleRebuildScanResult
          (store_run [Register sampleRegisterParams] empty_store)) \<and>
   resolvePendingRebuild ''test-vuln-container-001'' sampleRebuildScanResult
     (snd (resolvePendingRebuild ''test-vuln-container-001'' sampleRebuildScanResult
          (store_run [Register sampleRegisterParams] empty_store))) =
     (False, snd (resolvePendingRebuild ''test-vuln-container-001'' sampleRebuildScanResult
          (store_run [Register sampleRegisterParams] empty_store)))"
proof -
  let ?st = "store_run [Register sampleRegisterParams] empty_store"
  let ?e = "\<lparr>pr_vulnId = ''test-vuln-container-001'', pr_cveId = ''CVE-2023-4911'',
          pr_repoOwner = ''test-org'', pr_repoName = ''test-repo'',
          pr_tagName = ''rebuild/cve-2023-4911-2024-02-09T00-00-00'', pr_createdAt = 0,
          pr_promise = 0, pr_timeoutId = 0\<rparr>"
  have ex: "map_of (pending ?st) ''test-vuln-container-001'' = Some ?e"
    unfolding sample_registered by simp
  have "\<forall>e. map_of (pending ?st) ''test-vuln-container-001'' = Some e \<longrightarrow>
            fst (resolvePendingRebuild ''test-vuln-container-001'' sampleRebuildScanResult ?st) \<and>
            pr_timeoutId e \<notin> t_id ` set (timers (snd (resolvePendingRebuild ''test-vuln-container-001'' sampleRebuildScanResult ?st))) \<and>
            completions (snd (resolvePendingRebuild ''test-vuln-container-001'' sampleRebuildScanResult ?st)) =
              completions ?st @ [(pr_promise e, Fulfilled sampleRebuildScanResult)] \<and>
            map_of (pending (snd (resolvePendingRebuild ''test-vuln-container-001'' sampleRebuildScanResult ?st))) ''test-vuln-container-001'' = None \<and>
            ''test-vuln-container-001'' \<notin> pi_vulnId ` set (listPendingRebuilds (snd (resolvePendingRebuild ''test-vuln-container-001'' sampleRebuildScanResult ?st))) \<and>
            resolvePendingRebuild ''test-vuln-container-001'' sampleRebuildScanResult (snd (resolvePendingRebuild ''test-vuln-container-001'' sampleRebuildScanResult ?st)) =
              (False, snd (resolvePendingRebuild ''test-vuln-container-001'' sampleRebuildScanResult ?st))"
    using resolve_once[OF refl, of "[Register sampleRegisterParams]" "''test-vuln-container-001''"
        sampleRebuildScanResult sampleRebuildScanResult]
    by (rule conjunct1)
  from this[rule_format, OF ex] ex show ?thesis by blast
qed

text \<open>
  Claim C5. In any store reached from the empty one: registering arms a timer for the
  new entry that is due exactly \<open>30 * 60 * 1000\<close> ms after the clock at registration and
  does nothing when fired earlier; a due, armed timer finds its entry still present,
  removes it, rejects the entry's promise with the message naming \<open>1800s\<close>, and the
  \<open>vulnId\<close> is then absent from \<^verbatim>\<open>listPendingRebuilds\<close>; after a resolve or a superseding
  register the old timer does nothing, however late; and the callback itself does nothing
  when no entry is present.
\<close>

theorem expiry_timer:
  assumes reach: "st = store_run evs empty_store"
  shows "(\<exists>t e. t \<in> set (timers (snd (registerPendingRebuild p st))) \<and>
            map_of (pending (snd (registerPendingRebuild p st))) (rp_vulnId p) = Some e \<and>
            t_id t = pr_timeoutId e \<and> t_promise t = fst (registerPendingRebuild p st) \<and>
            pr_promise e = fst (registerPendingRebuild p st) \<and>
            t_vulnId t = rp_vulnId p \<and>
            t_deadline t = clock st + 30 * 60 * 1000 \<and>
            (\<forall>d < 30 * 60 * 1000.
               fire (t_id t) (advance d (snd (registerPendingRebuild p st))) =
               advance d (snd (registerPendingRebuild p st)))) \<and>
         (\<forall>t \<in> set (timers st). t_deadline t \<le> clock st \<longrightarrow>
            (\<exists>e. map_of (pending st) (t_vulnId t) = Some e \<and> pr_timeoutId e = t_id t \<and>
               completions (fire (t_id t) st) = completions st @
                 [(pr_promise e, Rejected (''Rebuild timed out after 1800s for '' @ pr_cveId e))] \<and>
               map_of (pending (fire (t_id t) st)) (t_vulnId t) = None \<and>
               t_vulnId t \<notin> pi_vulnId ` set (listPendingRebuilds (fire (t_id t) st)))) \<and>
         (\<forall>e. map_of (pending st) v = Some e \<longrightarrow>
            fire (pr_timeoutId e) (advance d (snd (resolvePendingRebuild v r st))) =
              advance d (snd (resolvePendingRebuild v r st)) \<and>
            (rp_vulnId p = v \<longrightarrow>
               fire (pr_timeoutId e) (advance d (snd (registerPendingRebuild p st))) =
                 advance d (snd (registerPendingRebuild p st)))) \<and>
         (map_of (pending st) (t_vulnId t0) = None \<longrightarrow> timer_callback t0 st = st)"
proof -
  have inv: "store_inv st" using reach by (simp add: store_inv_reachable)
  have a: "\<exists>t e. t \<in> set (timers (snd (registerPendingRebuild p st))) \<and>
            map_of (pending (snd (registerPendingRebuild p st))) (rp_vulnId p) = Some e \<and>
            t_id t = pr_timeoutId e \<and> t_promise t = fst (registerPendingRebuild p st) \<and>
            pr_promise e = fst (registerPendingRebuild p st) \<and>
            t_vulnId t = rp_vulnId p \<and>
            t_deadline t = clock st + 30 * 60 * 1000 \<and>
            (\<forall>d < 30 * 60 * 1000.
               fire (t_id t) (advance d (snd (registerPendingRebuild p st))) =
               advance d (snd (registerPendingRebuild p st)))"
    by (rule register_arms_timer[OF inv]) simp
  have b: "\<forall>t \<in> set (timers st). t_deadline t \<le> clock st \<longrightarrow>
            (\<exists>e. map_of (pending st) (t_vulnId t) = Some e \<and> pr_timeoutId e = t_id t \<and>
               completions (fire (t_id t) st) = completions st @
                 [(pr_promise e, Rejected (''Rebuild timed out after 1800s for '' @ pr_cveId e))] \<and>
               map_of (pending (fire (t_id t) st)) (t_vulnId t) = None \<and>
               t_vulnId t \<notin> pi_vulnId ` set (listPendingRebuilds (fire (t_id t) st)))"
    using fire_due[OF inv] by blast
  have c: "\<forall>e. map_of (pending st) v = Some e \<longrightarrow>
            fire (pr_timeoutId e) (advance d (snd (resolvePendingRebuild v r st))) =
              advance d (snd (resolvePendingRebuild v r st)) \<and>
            (rp_vulnId p = v \<longrightarrow>
               fire (pr_timeoutId e) (advance d (snd (registerPendingRebuild p st))) =
                 advance d (snd (registerPendingRebuild p st)))"
    using fire_after_resolve[OF inv] fire_after_supersede[OF inv] by blast
  have d: "map_of (pending st) (t_vulnId t0) = None \<longrightarrow> timer_callback t0 st = st"
    by (simp add: timer_callback_absent)
  from a b c d show ?thesis by (intro conjI)
qed

theorem expiry_timer_witness:
  "\<lparr>t_id = 0, t_deadline = 1800000, t_vulnId = ''test-vuln-container-001'',
      t_cveId = ''CVE-2023-4911'', t_promise = 0\<rparr>
     \<in> set (timers (store_run [Register sampleRegisterParams, Advance 1800000] empty_store)) \<and>
   completions (fire 0 (store_run [Register sampleRegisterParams, Advance 1800000] empty_store)) =
     [(0, Rejected ''Rebuild timed out after 1800s for CVE-2023-4911'')] \<and>
   listPendingRebuilds (fire 0 (store_run [Register sampleRegisterParams, Advance 1800000] empty_store)) = []"
proof -
  let ?st = "store_run [Register sampleRegisterParams, Advance 1800000] empty_store"
  let ?t = "\<lparr>t_id = 0, t_deadline = 1800000, t_vulnId = ''test-vuln-container-001'',
      t_cveId = ''CVE-2023-4911'', t_promise = 0\<rparr>"
  have st: "?st = advance 1800000 (store_run [Register sampleRegisterParams] empty_store)"
    by simp
  have mem: "?t \<in> set (timers ?st)" unfolding st sample_registered by (simp add: advance_def)
  have due: "t_deadline ?t \<le> clock ?st" unfolding st sample_registered by (simp add: advance_def)
  have pend: "pending ?st = [(''test-vuln-container-001'',
         \<lparr>pr_vulnId = ''test-vuln-container-001'', pr_cveId = ''CVE-2023-4911'',
          pr_repoOwner = ''test-org'', pr_repoName = ''test-repo'',
          pr_tagName = ''rebuild/cve-2023-4911-2024-02-09T00-00-00'', pr_createdAt = 0,
          pr_promise = 0, pr_timeoutId = 0\<rparr>)]"
    unfolding st sample_registered by (simp add: advance_def)
  have compl: "completions ?st = []" unfolding st sample_registered by (simp add: advance_def)
  have "\<forall>t \<in> set (timers ?st). t_deadline t \<le> clock ?st \<longrightarrow>
            (\<exists>e. map_of (pending ?st) (t_vulnId t) = Some e \<and> pr_timeoutId e = t_id t \<and>
               completions (fire (t_id t) ?st) = completions ?st @
                 [(pr_promise e, Rejected (''Rebuild timed out after 1800s for '' @ pr_cveId e))] \<and>
               map_of (pending (fire (t_id t) ?st)) (t_vulnId t) = None \<and>
               t_vulnId t \<notin> pi_vulnId ` set (listPendingRebuilds (fire (t_id t) ?st)))"
    using expiry_timer[OF refl, where evs = "[Register sampleRegisterParams, Advance 1800000]"
        and p = sampleRegisterParams and v = "''x''" and d = 0 and r = sampleRebuildScanResult
        and ?t0.0 = ?t]
    by (elim conjE)
  from this[rule_format, OF mem due] obtain e where e:
    "map_of (pending ?st) ''test-vuln-container-001'' = Some e"
    "completions (fire 0 ?st) = completions ?st @
       [(pr_promise e, Rejected (''Rebuild timed out after 1800s for '' @ pr_cveId e))]"
    by auto
  from e(1) have "e = \<lparr>pr_vulnId = ''test-vuln-container-001'', pr_cveId = ''CVE-2023-4911'',
          pr_repoOwner = ''test-org'', pr_repoName = ''test-repo'',
          pr_tagName = ''rebuild/cve-2023-4911-2024-02-09T00-00-00'', pr_createdAt = 0,
          pr_promise = 0, pr_timeoutId = 0\<rparr>"
    unfolding pend by simp
  with e(2) compl have c: "completions (fire 0 ?st) =
     [(0, Rejected ''Rebuild timed out after 1800s for CVE-2023-4911'')]" by simp
  have l: "listPendingRebuilds (fire 0 ?st) = []"
    unfolding st sample_registered
    by (simp add: fire_def advance_def timer_callback_def clearTimeout_def settle_def
        listPendingRebuilds_def)
  from mem c l show ?thesis by blast
qed

section \<open>Properties of the nodes and of the graph\<close>


lemma dependency_dir_Nil [simp]: "\<not> dependency_dir []"
  by (simp add: dependency_dir_def)

lemma not_truthy_or_else: "\<not> truthy s \<Longrightarrow> or_else s [] = []"
  by (cases s) (simp_all add: truthy_def or_else_def)

lemma classifyVuln_fallback:
  "classifyVuln now (Unparseable text) state =
     Inr (classify_result now
            (if v_source (vulnerability state) = ''trivy'' \<and>
                truthy (v_imageName (vulnerability state)) \<and>
                \<not> truthy (v_filePath (vulnerability state))
             then Container else Code)
            (''Fallback heuristic: '' @
               (if v_source (vulnerability state) = ''trivy'' \<and>
                   truthy (v_imageName (vulnerability state)) \<and>
                   \<not> truthy (v_filePath (vulnerability state))
                then ''OS-level package in image'' else ''application dependency'')))"
proof (cases "truthy (v_filePath (vulnerability state))")
  case True
  then show ?thesis by (simp add: classifyVuln_def Let_def)
next
  case False
  then show ?thesis
    by (simp add: classifyVuln_def Let_def not_truthy_or_else)
qed

lemma u_category_classify_result [simp]:
  "u_category (classify_result now c r) = Some (Some c)"
  by (simp add: classify_result_def no_update_def)


lemma apply_update_fields:
  "category (apply_update s u) = (case u_category u of None \<Rightarrow> category s | Some v \<Rightarrow> v)"
  "rebuildWouldFix (apply_update s u) =
     (case u_rebuildWouldFix u of None \<Rightarrow> rebuildWouldFix s | Some v \<Rightarrow> v)"
  "ragFixApplicable (apply_update s u) =
     (case u_ragFixApplicable u of None \<Rightarrow> ragFixApplicable s | Some v \<Rightarrow> v)"
  "rebuildSuccessful (apply_update s u) =
     (case u_rebuildSuccessful u of None \<Rightarrow> rebuildSuccessful s | Some v \<Rightarrow> v)"
  "rebuildVerified (apply_update s u) =
     (case u_rebuildVerified u of None \<Rightarrow> rebuildVerified s | Some v \<Rightarrow> v)"
  "status (apply_update s u) = (case u_status u of None \<Rightarrow> status s | Some v \<Rightarrow> v)"
  "error (apply_update s u) = (case u_error u of None \<Rightarrow> error s | Some v \<Rightarrow> v)"
  "patchContent (apply_update s u) =
     (case u_patchContent u of None \<Rightarrow> patchContent s | Some v \<Rightarrow> v)"
  "stepLog (apply_update s u) =
     stepLog s @ (case u_stepLog u of None \<Rightarrow> [] | Some l \<Rightarrow> l)"
  by (simp_all add: apply_update_def reduce_def overwrite_def append_log_def split: option.split)

lemma classifyVuln_category:
  "classifyVuln now reply s = Inr u \<Longrightarrow> \<exists>c. u_category u = Some (Some c)"
  by (auto simp: classifyVuln_def Let_def split: llm_reply.splits)

lemma tryRebuild_verdict:
  "tryRebuild now reply s = Inr u \<Longrightarrow> \<exists>b. u_rebuildWouldFix u = Some (Some b)"
  by (auto simp: tryRebuild_def rebuild_result_def no_update_def split: llm_reply.splits)

lemma searchRAG_fields:
  "\<exists>b. u_ragFixApplicable (searchRAG now f s) = Some b"
  "u_category (searchRAG now f s) = None"
  by (simp_all add: searchRAG_def Let_def no_update_def)

lemma researchFix_fields:
  "researchFix now reply s = Inr u \<Longrightarrow> u_category u = None"
  by (auto simp: researchFix_def research_result_def no_update_def split: llm_reply.splits)

lemma storeInRAG_throws:
  assumes "storeFix_error env = Some msg"
  shows "storeInRAG env w s =
     (w, no_update\<lparr>u_status := Some Resolved,
           u_stepLog := Some [logEntry (w_now w) ''storeInRAG''
              (''Fix applied but RAG storage failed: '' @ msg) StepFailed]\<rparr>)"
  using assms by (simp add: storeInRAG_def Let_def)

lemma next_node_StoreInRAG [simp]: "next_node StoreInRAG s = None"
  by (simp add: next_node_def)

lemma run_node_StoreInRAG [simp]: "run_node env StoreInRAG w s = Inr (storeInRAG env w s)"
  by (simp add: run_node_def)


lemma logEntry_fields [simp]:
  "timestamp (logEntry now n m st) = now"
  "node (logEntry now n m st) = n"
  "message (logEntry now n m st) = m"
  "step_status (logEntry now n m st) = st"
  by (simp_all add: logEntry_def)

lemma failed_update_fields [simp]:
  "u_stepLog (failed_update now n err msg) = Some [logEntry now n msg StepFailed]"
  "u_status (failed_update now n err msg) = Some Failed"
  "u_error (failed_update now n err msg) = Some err"
  "u_rebuildSuccessful (failed_update now n err msg) = None"
  "u_patchContent (failed_update now n err msg) = None"
  by (simp_all add: failed_update_def no_update_def)

text \<open>Every node writes exactly one log entry, under its own name, stamped with the clock.\<close>

lemma run_node_log:
  assumes "run_node env n w s = Inr (w', u)"
  shows "w_now w' = w_now w \<and>
         (\<exists>e. u_stepLog u = Some [e] \<and> timestamp e = w_now w \<and> node e = node_name n)"
proof (cases n)
  case ClassifyVuln
  with assms show ?thesis
    by (auto simp: run_node_def node_name_def classifyVuln_def classify_result_def
        no_update_def Let_def split: llm_reply.splits)
next
  case TryRebuild
  with assms show ?thesis
    by (auto simp: run_node_def node_name_def tryRebuild_def rebuild_result_def
        no_update_def split: llm_reply.splits)
next
  case SearchRAG
  with assms show ?thesis
    by (auto simp: run_node_def node_name_def searchRAG_def no_update_def Let_def)
next
  case ResearchFix
  with assms show ?thesis
    by (auto simp: run_node_def node_name_def researchFix_def research_result_def
        no_update_def split: llm_reply.splits)
next
  case CreatePR
  with assms show ?thesis
    by (auto simp: run_node_def node_name_def createPRNode_def no_update_def Let_def
        split: if_splits sum.splits)
next
  case CreateTagWorkflow
  with assms show ?thesis
    by (auto simp: run_node_def node_name_def createTagWorkflowNode_def
        createApprovalTagWorkflow_def no_update_def Let_def
        split: if_splits sum.splits)
next
  case VerifyRebuildResult
  with assms show ?thesis
    by (auto simp: run_node_def node_name_def verifyRebuildResult_def no_update_def Let_def
        split: option.splits if_splits)
next
  case StoreInRAG
  with assms show ?thesis
    by (auto simp: run_node_def node_name_def storeInRAG_def no_update_def Let_def
        split: option.splits)
qed

lemma stepLog_apply_update:
  "stepLog (apply_update s u) = stepLog s @ (case u_stepLog u of None \<Rightarrow> [] | Some l \<Rightarrow> l)"
  by (simp add: apply_update_def reduce_def append_log_def split: option.split)

lemma run_from_log:
  "run_from env n w s = Inr (ns, w', s') \<Longrightarrow>
     \<exists>l. stepLog s' = stepLog s @ l \<and> map node l = map node_name ns \<and>
         sorted (map timestamp l) \<and> (\<forall>e \<in> set l. w_now w \<le> timestamp e)"
proof (induction env n w s arbitrary: ns w' s' rule: run_from.induct)
  case (1 env n w state)
  let ?w1 = "w\<lparr>w_now := w_now w + delay env n\<rparr>"
  from "1.prems" obtain w2 u where rn: "run_node env n ?w1 state = Inr (w2, u)"
    by (subst (asm) run_from.simps) (auto split: sum.splits)
  from run_node_log[OF rn] obtain e where
    now2: "w_now w2 = w_now w + delay env n" and
    lg: "u_stepLog u = Some [e]" and
    e: "timestamp e = w_now w + delay env n" "node e = node_name n"
    by auto
  let ?s2 = "apply_update state u"
  let ?e = e
  have s2: "stepLog ?s2 = stepLog state @ [?e]"
    by (simp add: stepLog_apply_update lg)
  show ?case
  proof (cases "next_node n ?s2")
    case None
    with "1.prems" rn have "ns = [n]" "s' = ?s2"
      by (subst (asm) run_from.simps, simp)+
    with s2 e show ?thesis by simp
  next
    case (Some n')
    with "1.prems" rn obtain ns' where
      rec: "run_from env n' w2 ?s2 = Inr (ns', w', s')" and ns: "ns = n # ns'"
      by (subst (asm) run_from.simps) (auto split: sum.splits)
    from "1.IH"[OF rn refl Some rec] obtain l where l:
      "stepLog s' = stepLog ?s2 @ l" "map node l = map node_name ns'"
      "sorted (map timestamp l)" "\<forall>e \<in> set l. w_now w2 \<le> timestamp e"
      by blast
    have "stepLog s' = stepLog state @ (?e # l)" using l(1) s2 by simp
    moreover have "map node (?e # l) = map node_name ns" using l(2) ns e by simp
    moreover have "sorted (map timestamp (?e # l))" using l(3,4) now2 e by simp
    moreover have "\<forall>x \<in> set (?e # l). w_now w \<le> timestamp x"
      using l(4) now2 e by auto
    ultimately show ?thesis by blast
  qed
qed


lemma sorted_append_bound:
  assumes "sorted (map timestamp xs)" "sorted (map timestamp l)"
    and "\<forall>e \<in> set xs. timestamp e \<le> t" "\<forall>e \<in> set l. t \<le> timestamp e"
  shows "sorted (map timestamp (xs @ l))"
  using assms by (fastforce simp: sorted_append)





lemma createPRNode_no_patch:
  "patchContent s = [] \<Longrightarrow>
     createPRNode env w s =
       (w, failed_update (w_now w) ''createPR''
             (''No patch content generated '' @ em_dash @ '' cannot create PR.'')
             ''No patch content to commit.'')"
  by (simp add: createPRNode_def Let_def)

text \<open>
  The revision of \<^verbatim>\<open>createTagWorkflowNode\<close> in \<^verbatim>\<open>agentNodes.ts\<close> leaves the pending-rebuild
  store as it is, and a dispatch it causes carries neither id nor callback address.
\<close>

lemma createTagWorkflowNode_store:
  "w_store (fst (createTagWorkflowNode env w s)) = w_store w"
  by (simp add: createTagWorkflowNode_def createApprovalTagWorkflow_def Let_def
      split: sum.split)

lemma createTagWorkflowNode_dispatch:
  "set (w_dispatches (fst (createTagWorkflowNode env w s))) \<subseteq>
     set (w_dispatches w) \<union> {d. di_vuln_id d = None \<and> di_callback_url d = None}"
  by (auto simp: createTagWorkflowNode_def createApprovalTagWorkflow_def Let_def
      split: sum.split)


lemma storeInRAG_update:
  "u_status (snd (storeInRAG env w s)) = Some Resolved \<and>
   u_error (snd (storeInRAG env w s)) = None"
  by (simp add: storeInRAG_def Let_def no_update_def split: option.split)

lemma next_node_CreatePR [simp]: "next_node CreatePR s = Some StoreInRAG"
  by (simp add: next_node_def)

lemma run_from_StoreInRAG:
  "run_from env StoreInRAG w s =
     Inr ([StoreInRAG], fst (storeInRAG env (w\<lparr>w_now := w_now w + delay env StoreInRAG\<rparr>) s),
          apply_update s (snd (storeInRAG env (w\<lparr>w_now := w_now w + delay env StoreInRAG\<rparr>) s)))"
  by (subst run_from.simps) (simp add: case_prod_unfold)

lemma run_node_CreatePR_no_patch:
  "patchContent s = [] \<Longrightarrow>
     run_node env CreatePR w s =
       Inr (w, failed_update (w_now w) ''createPR''
             (''No patch content generated '' @ em_dash @ '' cannot create PR.'')
             ''No patch content to commit.'')"
  by (simp add: run_node_def createPRNode_no_patch)

text \<open>
  Whatever the collaborators answer: a state without patch content fails in
  \<^verbatim>\<open>createPRNode\<close>, and the run from there still goes through \<^verbatim>\<open>storeInRAG\<close> and ends
  resolved, the error of the failed node still set.
\<close>

lemma failed_pr_then_store:
  assumes "patchContent s = []"
  shows "\<exists>w' s'. run_from env CreatePR w s = Inr ([CreatePR, StoreInRAG], w', s') \<and>
           status s' = Resolved \<and>
           error s' = ''No patch content generated '' @ em_dash @ '' cannot create PR.''"
proof -
  let ?w1 = "w\<lparr>w_now := w_now w + delay env CreatePR\<rparr>"
  let ?u1 = "failed_update (w_now ?w1) ''createPR''
             (''No patch content generated '' @ em_dash @ '' cannot create PR.'')
             ''No patch content to commit.''"
  let ?s1 = "apply_update s ?u1"
  let ?w2 = "?w1\<lparr>w_now := w_now ?w1 + delay env StoreInRAG\<rparr>"
  let ?r = "storeInRAG env ?w2 ?s1"
  have r1: "run_from env CreatePR w s =
      Inr ([CreatePR, StoreInRAG], fst ?r, apply_update ?s1 (snd ?r))"
    by (subst run_from.simps)
       (simp add: run_node_CreatePR_no_patch[OF assms] run_from_StoreInRAG case_prod_unfold)
  have "status (apply_update ?s1 (snd ?r)) = Resolved"
    using storeInRAG_update[of env ?w2 ?s1] by (simp add: apply_update_fields)
  moreover have "error (apply_update ?s1 (snd ?r)) =
      ''No patch content generated '' @ em_dash @ '' cannot create PR.''"
    using storeInRAG_update[of env ?w2 ?s1] by (simp add: apply_update_fields)
  ultimately show ?thesis using r1 by blast
qed

section \<open>Claims about the workflow\<close>

text \<open>
  Claim C8, as the code has it. When the classification answer does not parse, the
  fallback classifies the vulnerability as container exactly when its source scanner is
  \<^verbatim>\<open>trivy\<close>, it has a non-empty image name and it has no (or an empty) file path; in
  every other case as code.
\<close>

theorem classify_fallback:
  "\<exists>u. classifyVuln now (Unparseable text) state = Inr u \<and>
       u_category u =
         Some (Some (if v_source (vulnerability state) = ''trivy'' \<and>
                        truthy (v_imageName (vulnerability state)) \<and>
                        \<not> truthy (v_filePath (vulnerability state))
                     then Container else Code))"
  by (simp add: classifyVuln_fallback)

theorem classify_fallback_witness:
  "\<exists>u. classifyVuln 0 (Unparseable ''no json'') (initial_state sampleContainerVuln) = Inr u \<and>
       u_category u = Some (Some Container)"
  using classify_fallback[of 0 "''no json''" "initial_state sampleContainerVuln"]
  by (simp add: initial_state_def sampleContainerVuln_def truthy_def)

text \<open>
  Claim C8 as stated fails: a finding with an image name and no file path that another
  scanner reported is classified as code.
\<close>

theorem classify_fallback_counterexample:
  "v_imageName grypeContainerVuln = Some ''ubuntu:22.04'' \<and>
   v_filePath grypeContainerVuln = None \<and>
   map_sum id u_category
     (classifyVuln 0 (Unparseable ''no json'') (initial_state grypeContainerVuln)) =
     Inr (Some (Some Code))"
  by (simp add: classifyVuln_fallback initial_state_def grypeContainerVuln_def
      sampleContainerVuln_def)

text \<open>
  Claim C7. The edges of the graph: after classification a container goes to the rebuild
  check and code to retrieval; after the rebuild check a true verdict goes to the tag
  workflow and a false one to retrieval; after retrieval an applicable fix goes to the tag
  workflow for a container and to the pull request for code, and no applicable fix goes to
  research; after research a container goes to the tag workflow and code to the pull
  request. The decision reads nothing but the category, the rebuild verdict and the
  applicability, and it reads them after the node's own return value has been applied,
  so the verdict a node has just produced is the one that routes.
\<close>

theorem routing:
  "(category s = Some Container \<longrightarrow> next_node ClassifyVuln s = Some TryRebuild) \<and>
   (category s = Some Code \<longrightarrow> next_node ClassifyVuln s = Some SearchRAG) \<and>
   (rebuildWouldFix s = Some True \<longrightarrow> next_node TryRebuild s = Some CreateTagWorkflow) \<and>
   (rebuildWouldFix s = Some False \<longrightarrow> next_node TryRebuild s = Some SearchRAG) \<and>
   (ragFixApplicable s \<and> category s = Some Container \<longrightarrow>
      next_node SearchRAG s = Some CreateTagWorkflow) \<and>
   (ragFixApplicable s \<and> category s = Some Code \<longrightarrow> next_node SearchRAG s = Some CreatePR) \<and>
   (\<not> ragFixApplicable s \<longrightarrow> next_node SearchRAG s = Some ResearchFix) \<and>
   (category s = Some Container \<longrightarrow> next_node ResearchFix s = Some CreateTagWorkflow) \<and>
   (category s = Some Code \<longrightarrow> next_node ResearchFix s = Some CreatePR) \<and>
   (category s = category s' \<and> rebuildWouldFix s = rebuildWouldFix s' \<and>
    ragFixApplicable s = ragFixApplicable s' \<and>
    n \<in> {ClassifyVuln, TryRebuild, SearchRAG, ResearchFix} \<longrightarrow>
      next_node n s = next_node n s') \<and>
   (classifyVuln now creply s = Inr u \<longrightarrow>
      next_node ClassifyVuln (apply_update s u) =
        Some (if u_category u = Some (Some Container) then TryRebuild else SearchRAG)) \<and>
   (tryRebuild now rreply s = Inr u \<longrightarrow>
      next_node TryRebuild (apply_update s u) =
        Some (if u_rebuildWouldFix u = Some (Some True) then CreateTagWorkflow else SearchRAG)) \<and>
   next_node SearchRAG (apply_update s (searchRAG now search s)) =
     Some (if u_ragFixApplicable (searchRAG now search s) = Some True
           then (if category s = Some Container then CreateTagWorkflow else CreatePR)
           else ResearchFix) \<and>
   (researchFix now xreply s = Inr u \<longrightarrow>
      next_node ResearchFix (apply_update s u) =
        Some (if category s = Some Container then CreateTagWorkflow else CreatePR))"
proof -
  have table1: "category s = Some Container \<longrightarrow> next_node ClassifyVuln s = Some TryRebuild"
    "category s = Some Code \<longrightarrow> next_node ClassifyVuln s = Some SearchRAG"
    "rebuildWouldFix s = Some True \<longrightarrow> next_node TryRebuild s = Some CreateTagWorkflow"
    "rebuildWouldFix s = Some False \<longrightarrow> next_node TryRebuild s = Some SearchRAG"
    by (simp_all add: next_node_def)
  have table2: "ragFixApplicable s \<and> category s = Some Container \<longrightarrow>
      next_node SearchRAG s = Some CreateTagWorkflow"
    "ragFixApplicable s \<and> category s = Some Code \<longrightarrow> next_node SearchRAG s = Some CreatePR"
    "\<not> ragFixApplicable s \<longrightarrow> next_node SearchRAG s = Some ResearchFix"
    "category s = Some Container \<longrightarrow> next_node ResearchFix s = Some CreateTagWorkflow"
    "category s = Some Code \<longrightarrow> next_node ResearchFix s = Some CreatePR"
    by (simp_all add: next_node_def)
  have dep: "category s = category s' \<and> rebuildWouldFix s = rebuildWouldFix s' \<and>
    ragFixApplicable s = ragFixApplicable s' \<and>
    n \<in> {ClassifyVuln, TryRebuild, SearchRAG, ResearchFix} \<longrightarrow>
      next_node n s = next_node n s'"
    by (auto simp: next_node_def)
  have j1: "classifyVuln now creply s = Inr u \<longrightarrow>
      next_node ClassifyVuln (apply_update s u) =
        Some (if u_category u = Some (Some Container) then TryRebuild else SearchRAG)"
    by (auto simp: next_node_def apply_update_fields dest: classifyVuln_category)
  have j2: "tryRebuild now rreply s = Inr u \<longrightarrow>
      next_node TryRebuild (apply_update s u) =
        Some (if u_rebuildWouldFix u = Some (Some True) then CreateTagWorkflow else SearchRAG)"
    by (auto simp: next_node_def apply_update_fields dest: tryRebuild_verdict)
  have j3: "next_node SearchRAG (apply_update s (searchRAG now search s)) =
     Some (if u_ragFixApplicable (searchRAG now search s) = Some True
           then (if category s = Some Container then CreateTagWorkflow else CreatePR)
           else ResearchFix)"
    using searchRAG_fields[of now search s]
    by (auto simp: next_node_def apply_update_fields)
  have j4: "researchFix now xreply s = Inr u \<longrightarrow>
      next_node ResearchFix (apply_update s u) =
        Some (if category s = Some Container then CreateTagWorkflow else CreatePR)"
    by (auto simp: next_node_def apply_update_fields dest: researchFix_fields)
  from table1 table2 dep j1 j2 j3 j4 show ?thesis by (intro conjI)
qed


theorem routing_witness:
  "category ((initial_state sampleContainerVuln)
      \<lparr>category := Some Container, rebuildWouldFix := Some True, ragFixApplicable := True\<rparr>)
     = Some Container \<and>
   next_node ClassifyVuln ((initial_state sampleContainerVuln)
      \<lparr>category := Some Container, rebuildWouldFix := Some True, ragFixApplicable := True\<rparr>)
     = Some TryRebuild \<and>
   next_node TryRebuild ((initial_state sampleContainerVuln)
      \<lparr>category := Some Container, rebuildWouldFix := Some True, ragFixApplicable := True\<rparr>)
     = Some CreateTagWorkflow \<and>
   next_node SearchRAG ((initial_state sampleContainerVuln)
      \<lparr>category := Some Container, rebuildWouldFix := Some True, ragFixApplicable := True\<rparr>)
     = Some CreateTagWorkflow \<and>
   next_node ResearchFix ((initial_state sampleContainerVuln)
      \<lparr>category := Some Container, rebuildWouldFix := Some True, ragFixApplicable := True\<rparr>)
     = Some CreateTagWorkflow \<and>
   classifyVuln 0 (llm_classify container_run_env) (initial_state sampleContainerVuln) =
     Inr (classify_result 0 Container ''OS package'') \<and>
   next_node ClassifyVuln (apply_update (initial_state sampleContainerVuln)
      (classify_result 0 Container ''OS package'')) = Some TryRebuild"
proof -
  let ?s = "(initial_state sampleContainerVuln)
      \<lparr>category := Some Container, rebuildWouldFix := Some True, ragFixApplicable := True\<rparr>"
  have c: "category ?s = Some Container" and r: "rebuildWouldFix ?s = Some True"
    and a: "ragFixApplicable ?s" by simp_all
  note t = routing[where s = ?s and s' = ?s and n = ClassifyVuln and now = 0
      and creply = "InvokeThrows []" and rreply = "InvokeThrows []" and xreply = "InvokeThrows []"
      and u = no_update and search = "\<lambda>_ _. Inr []"]
  from t c have 1: "next_node ClassifyVuln ?s = Some TryRebuild" by blast
  from t r have 2: "next_node TryRebuild ?s = Some CreateTagWorkflow" by blast
  from t a c have 3: "next_node SearchRAG ?s = Some CreateTagWorkflow" by blast
  from t c have 4: "next_node ResearchFix ?s = Some CreateTagWorkflow" by blast
  have k: "classifyVuln 0 (llm_classify container_run_env) (initial_state sampleContainerVuln) =
     Inr (classify_result 0 Container ''OS package'')"
    by (simp add: classifyVuln_def container_run_env_def code_run_env_def or_else_def)
  note t' = routing[where s = "initial_state sampleContainerVuln"
      and s' = "initial_state sampleContainerVuln" and n = ClassifyVuln and now = 0
      and creply = "llm_classify container_run_env" and rreply = "InvokeThrows []"
      and xreply = "InvokeThrows []"
      and u = "classify_result 0 Container ''OS package''" and search = "\<lambda>_ _. Inr []"]
  from t' k have 5: "next_node ClassifyVuln (apply_update (initial_state sampleContainerVuln)
      (classify_result 0 Container ''OS package'')) = Some TryRebuild"
    by simp
  from c 1 2 3 4 k 5 show ?thesis by (intro conjI)
qed

text \<open>
  Claim C10. When the write to the fix store throws, \<^verbatim>\<open>storeInRAG\<close> still returns status
  resolved, with a step-log entry of status failed, and the fix store is as it was; the
  graph run from that node ends resolved with nothing persisted.
\<close>

theorem store_failure_still_resolved:
  assumes "storeFix_error env = Some msg"
  shows "(\<exists>w' u. storeInRAG env w s = (w', u) \<and>
            u_status u = Some Resolved \<and>
            u_stepLog u = Some [logEntry (w_now w) ''storeInRAG''
               (''Fix applied but RAG storage failed: '' @ msg) StepFailed] \<and>
            w_fixes w' = w_fixes w) \<and>
         (\<exists>w' s'. run_from env StoreInRAG w s = Inr ([StoreInRAG], w', s') \<and>
            status s' = Resolved \<and>
            w_fixes w' = w_fixes w \<and>
            stepLog s' = stepLog s @ [logEntry (w_now w + delay env StoreInRAG) ''storeInRAG''
               (''Fix applied but RAG storage failed: '' @ msg) StepFailed])"
proof -
  have a: "\<exists>w' u. storeInRAG env w s = (w', u) \<and>
            u_status u = Some Resolved \<and>
            u_stepLog u = Some [logEntry (w_now w) ''storeInRAG''
               (''Fix applied but RAG storage failed: '' @ msg) StepFailed] \<and>
            w_fixes w' = w_fixes w"
    by (simp add: storeInRAG_throws[OF assms] no_update_def)
  let ?w = "w\<lparr>w_now := w_now w + delay env StoreInRAG\<rparr>"
  have "run_from env StoreInRAG w s =
      Inr ([StoreInRAG], ?w, apply_update s (snd (storeInRAG env ?w s)))"
    by (simp add: storeInRAG_throws[OF assms])
  then have b: "\<exists>w' s'. run_from env StoreInRAG w s = Inr ([StoreInRAG], w', s') \<and>
            status s' = Resolved \<and>
            w_fixes w' = w_fixes w \<and>
            stepLog s' = stepLog s @ [logEntry (w_now w + delay env StoreInRAG) ''storeInRAG''
               (''Fix applied but RAG storage failed: '' @ msg) StepFailed]"
    by (simp add: storeInRAG_throws[OF assms] apply_update_fields no_update_def)
  from a b show ?thesis by (rule conjI)
qed


theorem store_failure_still_resolved_witness:
  "storeFix_error (code_run_env\<lparr>storeFix_error := Some ''index unavailable''\<rparr>) =
     Some ''index unavailable'' \<and>
   (\<exists>w' s'. run_from (code_run_env\<lparr>storeFix_error := Some ''index unavailable''\<rparr>)
              StoreInRAG empty_world (initial_state sampleCodeVuln) =
              Inr ([StoreInRAG], w', s') \<and>
      status s' = Resolved \<and> w_fixes w' = [])"
proof -
  let ?env = "code_run_env\<lparr>storeFix_error := Some ''index unavailable''\<rparr>"
  have h: "storeFix_error ?env = Some ''index unavailable''" by simp
  have e: "w_fixes empty_world = []" by (simp add: empty_world_def)
  from store_failure_still_resolved[OF h, of empty_world "initial_state sampleCodeVuln"]
  obtain w' s' where "run_from ?env StoreInRAG empty_world (initial_state sampleCodeVuln) =
      Inr ([StoreInRAG], w', s')" "status s' = Resolved" "w_fixes w' = w_fixes empty_world"
    by blast
  with h e show ?thesis by auto
qed

text \<open>
  Claim C6, for the verification stage as the spec describes it. With a payload, the
  verdict \<^verbatim>\<open>rebuildSuccessful\<close> is true exactly when the build succeeded and no residual
  finding has the target CVE, and \<^verbatim>\<open>rebuildVerified\<close> is true; without a payload the stage
  yields both flags false and a non-empty error.
\<close>

theorem verify_verdict:
  "(rebuildScanResult s = Some scan \<longrightarrow>
      u_rebuildSuccessful (verifyRebuildResult now s) =
        Some (buildSuccess scan \<and>
              (\<forall>f \<in> set (vulnerabilities (scanResults scan)).
                 sf_cveId f \<noteq> v_cveId (vulnerability s))) \<and>
      u_rebuildVerified (verifyRebuildResult now s) = Some True) \<and>
   (rebuildScanResult s = None \<longrightarrow>
      u_rebuildVerified (verifyRebuildResult now s) = Some False \<and>
      u_rebuildSuccessful (verifyRebuildResult now s) = Some False \<and>
      (\<exists>e. u_error (verifyRebuildResult now s) = Some e \<and> e \<noteq> []))"
  by (auto simp: verifyRebuildResult_def Let_def no_update_def failed_update_def list_ex_iff)

theorem verify_verdict_witness:
  "rebuildScanResult ((initial_state sampleContainerVuln)
       \<lparr>rebuildScanResult := Some sampleRebuildScanResult\<rparr>) = Some sampleRebuildScanResult \<and>
   u_rebuildSuccessful (verifyRebuildResult 0 ((initial_state sampleContainerVuln)
       \<lparr>rebuildScanResult := Some sampleRebuildScanResult\<rparr>)) = Some True \<and>
   rebuildScanResult (initial_state sampleContainerVuln) = None \<and>
   u_rebuildSuccessful (verifyRebuildResult 0 (initial_state sampleContainerVuln)) = Some False"
proof -
  let ?s = "(initial_state sampleContainerVuln)\<lparr>rebuildScanResult := Some sampleRebuildScanResult\<rparr>"
  have p: "rebuildScanResult ?s = Some sampleRebuildScanResult" by simp
  have n: "rebuildScanResult (initial_state sampleContainerVuln) = None"
    by (simp add: initial_state_def)
  have ok: "buildSuccess sampleRebuildScanResult \<and>
              (\<forall>f \<in> set (vulnerabilities (scanResults sampleRebuildScanResult)).
                 sf_cveId f \<noteq> v_cveId (vulnerability ?s))"
    by (simp add: sampleRebuildScanResult_def initial_state_def sampleContainerVuln_def)
  from verify_verdict[of ?s sampleRebuildScanResult 0] p ok
  have 1: "u_rebuildSuccessful (verifyRebuildResult 0 ?s) = Some True" by simp
  from verify_verdict[of "initial_state sampleContainerVuln" sampleRebuildScanResult 0] n
  have 2: "u_rebuildSuccessful (verifyRebuildResult 0 (initial_state sampleContainerVuln)) = Some False"
    by simp
  from p 1 n 2 show ?thesis by (intro conjI)
qed

text \<open>
  Claim C9. Applying a node's return value appends its step-log entries after the
  existing ones and sets every other field to the value returned (a field the node does
  not return keeps its value). Over a run of the graph the log at the start is a prefix
  of the log at the end, the entries added are those of the nodes run, in the order they
  ran, and their timestamps are in non-decreasing order.
\<close>

theorem step_log_append_only:
  "stepLog (apply_update s u) = stepLog s @ (case u_stepLog u of None \<Rightarrow> [] | Some l \<Rightarrow> l) \<and>
   vulnerability (apply_update s u) =
     (case u_vulnerability u of None \<Rightarrow> vulnerability s | Some v \<Rightarrow> v) \<and>
   category (apply_update s u) = (case u_category u of None \<Rightarrow> category s | Some v \<Rightarrow> v) \<and>
   classificationReason (apply_update s u) =
     (case u_classificationReason u of None \<Rightarrow> classificationReason s | Some v \<Rightarrow> v) \<and>
   rebuildWouldFix (apply_update s u) =
     (case u_rebuildWouldFix u of None \<Rightarrow> rebuildWouldFix s | Some v \<Rightarrow> v) \<and>
   rebuildCheckReason (apply_update s u) =
     (case u_rebuildCheckReason u of None \<Rightarrow> rebuildCheckReason s | Some v \<Rightarrow> v) \<and>
   ragResults (apply_update s u) =
     (case u_ragResults u of None \<Rightarrow> ragResults s | Some v \<Rightarrow> v) \<and>
   ragFixApplicable (apply_update s u) =
     (case u_ragFixApplicable u of None \<Rightarrow> ragFixApplicable s | Some v \<Rightarrow> v) \<and>
   proposedFix (apply_update s u) =
     (case u_proposedFix u of None \<Rightarrow> proposedFix s | Some v \<Rightarrow> v) \<and>
   fixSteps (apply_update s u) = (case u_fixSteps u of None \<Rightarrow> fixSteps s | Some v \<Rightarrow> v) \<and>
   patchContent (apply_update s u) =
     (case u_patchContent u of None \<Rightarrow> patchContent s | Some v \<Rightarrow> v) \<and>
   dockerfileChanges (apply_update s u) =
     (case u_dockerfileChanges u of None \<Rightarrow> dockerfileChanges s | Some v \<Rightarrow> v) \<and>
   prUrl (apply_update s u) = (case u_prUrl u of None \<Rightarrow> prUrl s | Some v \<Rightarrow> v) \<and>
   tagName (apply_update s u) = (case u_tagName u of None \<Rightarrow> tagName s | Some v \<Rightarrow> v) \<and>
   workflowRunUrl (apply_update s u) =
     (case u_workflowRunUrl u of None \<Rightarrow> workflowRunUrl s | Some v \<Rightarrow> v) \<and>
   rebuildVerified (apply_update s u) =
     (case u_rebuildVerified u of None \<Rightarrow> rebuildVerified s | Some v \<Rightarrow> v) \<and>
   rebuildSuccessful (apply_update s u) =
     (case u_rebuildSuccessful u of None \<Rightarrow> rebuildSuccessful s | Some v \<Rightarrow> v) \<and>
   rebuildScanResult (apply_update s u) =
     (case u_rebuildScanResult u of None \<Rightarrow> rebuildScanResult s | Some v \<Rightarrow> v) \<and>
   status (apply_update s u) = (case u_status u of None \<Rightarrow> status s | Some v \<Rightarrow> v) \<and>
   error (apply_update s u) = (case u_error u of None \<Rightarrow> error s | Some v \<Rightarrow> v) \<and>
   (run_from env n w s = Inr (ns, w', s') \<longrightarrow>
      prefix (stepLog s) (stepLog s') \<and>
      map node (drop (length (stepLog s)) (stepLog s')) = map node_name ns \<and>
      (sorted (map timestamp (stepLog s)) \<and> (\<forall>e \<in> set (stepLog s). timestamp e \<le> w_now w) \<longrightarrow>
         sorted (map timestamp (stepLog s'))))"
proof -
  have fields: "stepLog (apply_update s u) = stepLog s @ (case u_stepLog u of None \<Rightarrow> [] | Some l \<Rightarrow> l) \<and>
   vulnerability (apply_update s u) =
     (case u_vulnerability u of None \<Rightarrow> vulnerability s | Some v \<Rightarrow> v) \<and>
   category (apply_update s u) = (case u_category u of None \<Rightarrow> category s | Some v \<Rightarrow> v) \<and>
   classificationReason (apply_update s u) =
     (case u_classificationReason u of None \<Rightarrow> classificationReason s | Some v \<Rightarrow> v) \<and>
   rebuildWouldFix (apply_update s u) =
     (case u_rebuildWouldFix u of None \<Rightarrow> rebuildWouldFix s | Some v \<Rightarrow> v) \<and>
   rebuildCheckReason (apply_update s u) =
     (case u_rebuildCheckReason u of None \<Rightarrow> rebuildCheckReason s | Some v \<Rightarrow> v) \<and>
   ragResults (apply_update s u) =
     (case u_ragResults u of None \<Rightarrow> ragResults s | Some v \<Rightarrow> v) \<and>
   ragFixApplicable (apply_update s u) =
     (case u_ragFixApplicable u of None \<Rightarrow> ragFixApplicable s | Some v \<Rightarrow> v) \<and>
   proposedFix (apply_update s u) =
     (case u_proposedFix u of None \<Rightarrow> proposedFix s | Some v \<Rightarrow> v) \<and>
   fixSteps (apply_update s u) = (case u_fixSteps u of None \<Rightarrow> fixSteps s | Some v \<Rightarrow> v) \<and>
   patchContent (apply_update s u) =
     (case u_patchContent u of None \<Rightarrow> patchContent s | Some v \<Rightarrow> v) \<and>
   dockerfileChanges (apply_update s u) =
     (case u_dockerfileChanges u of None \<Rightarrow> dockerfileChanges s | Some v \<Rightarrow> v) \<and>
   prUrl (apply_update s u) = (case u_prUrl u of None \<Rightarrow> prUrl s | Some v \<Rightarrow> v) \<and>
   tagName (apply_update s u) = (case u_tagName u of None \<Rightarrow> tagName s | Some v \<Rightarrow> v) \<and>
   workflowRunUrl (apply_update s u) =
     (case u_workflowRunUrl u of None \<Rightarrow> workflowRunUrl s | Some v \<Rightarrow> v) \<and>
   rebuildVerified (apply_update s u) =
     (case u_rebuildVerified u of None \<Rightarrow> rebuildVerified s | Some v \<Rightarrow> v) \<and>
   rebuildSuccessful (apply_update s u) =
     (case u_rebuildSuccessful u of None \<Rightarrow> rebuildSuccessful s | Some v \<Rightarrow> v) \<and>
   rebuildScanResult (apply_update s u) =
     (case u_rebuildScanResult u of None \<Rightarrow> rebuildScanResult s | Some v \<Rightarrow> v) \<and>
   status (apply_update s u) = (case u_status u of None \<Rightarrow> status s | Some v \<Rightarrow> v) \<and>
   error (apply_update s u) = (case u_error u of None \<Rightarrow> error s | Some v \<Rightarrow> v)"
    by (intro conjI; simp add: apply_update_def reduce_def overwrite_def append_log_def
        split: option.split)
  have run: "prefix (stepLog s) (stepLog s') \<and>
      map node (drop (length (stepLog s)) (stepLog s')) = map node_name ns \<and>
      (sorted (map timestamp (stepLog s)) \<and> (\<forall>e \<in> set (stepLog s). timestamp e \<le> w_now w) \<longrightarrow>
         sorted (map timestamp (stepLog s')))"
    if r: "run_from env n w s = Inr (ns, w', s')"
  proof -
    from run_from_log[OF r] obtain l where l: "stepLog s' = stepLog s @ l"
      "map node l = map node_name ns" "sorted (map timestamp l)"
      "\<forall>e \<in> set l. w_now w \<le> timestamp e" by blast
    have "sorted (map timestamp (stepLog s'))"
      if "sorted (map timestamp (stepLog s))" "\<forall>e \<in> set (stepLog s). timestamp e \<le> w_now w"
      unfolding l(1) using that(1) l(3) that(2) l(4) by (rule sorted_append_bound)
    with l(1,2) show ?thesis by simp
  qed
  then have run': "run_from env n w s = Inr (ns, w', s') \<longrightarrow>
      prefix (stepLog s) (stepLog s') \<and>
      map node (drop (length (stepLog s)) (stepLog s')) = map node_name ns \<and>
      (sorted (map timestamp (stepLog s)) \<and> (\<forall>e \<in> set (stepLog s). timestamp e \<le> w_now w) \<longrightarrow>
         sorted (map timestamp (stepLog s')))"
    by (rule impI)
  from fields run' show ?thesis by (elim conjE) (intro conjI; assumption)
qed

theorem step_log_append_only_witness:
  "(\<exists>w' s'. run_from code_run_env ClassifyVuln empty_world (initial_state sampleCodeVuln) =
       Inr ([ClassifyVuln, SearchRAG, ResearchFix, CreatePR, StoreInRAG], w', s') \<and>
     map node (stepLog s') =
       [''classifyVuln'', ''searchRAG'', ''researchFix'', ''createPR'', ''storeInRAG''] \<and>
     sorted (map timestamp (stepLog s')))"
proof -
  let ?r = "run_from code_run_env ClassifyVuln empty_world (initial_state sampleCodeVuln)"
  have "map_sum id fst ?r = Inr [ClassifyVuln, SearchRAG, ResearchFix, CreatePR, StoreInRAG]"
    by (simp add: code_run_env_def empty_world_def sampleCodeVuln_def initial_state_def
      run_node_def next_node_def apply_update_def reduce_def overwrite_def append_log_def
      classifyVuln_def classify_result_def searchRAG_def researchFix_def research_result_def
      createPRNode_def failed_update_def storeInRAG_def no_update_def logEntry_def Let_def
      or_else_def or_undefined_def category_name_def)
  then obtain w' s' where r:
    "?r = Inr ([ClassifyVuln, SearchRAG, ResearchFix, CreatePR, StoreInRAG], w', s')"
    by (cases ?r) auto
  have e: "stepLog (initial_state sampleCodeVuln) = []" by (simp add: initial_state_def)
  from step_log_append_only[where env = code_run_env and n = ClassifyVuln and w = empty_world
      and s = "initial_state sampleCodeVuln" and u = no_update, THEN conjunct2, THEN conjunct2,
      THEN conjunct2, THEN conjunct2, THEN conjunct2, THEN conjunct2, THEN conjunct2,
      THEN conjunct2, THEN conjunct2, THEN conjunct2, THEN conjunct2, THEN conjunct2,
      THEN conjunct2, THEN conjunct2, THEN conjunct2, THEN conjunct2, THEN conjunct2,
      THEN conjunct2, THEN conjunct2, THEN conjunct2, rule_format, OF r]
  have "map node (stepLog s') = map node_name [ClassifyVuln, SearchRAG, ResearchFix, CreatePR, StoreInRAG]"
    and "sorted (map timestamp (stepLog s'))"
    by (simp_all add: e)
  then show ?thesis using r by (simp add: node_name_def)
qed

text \<open>
  Claim C1 says that a run with a failed stage makes no further transition and never ends
  resolved. The graph does otherwise: the edge from \<^verbatim>\<open>createPR\<close> to \<^verbatim>\<open>storeInRAG\<close> is
  unconditional. On the sample code vulnerability, with a research answer that has no patch
  content, \<^verbatim>\<open>createPRNode\<close> returns status failed, \<^verbatim>\<open>storeInRAG\<close> runs all the same,
  stores a fix, and the run ends resolved with the error of the failed stage still set.
\<close>

theorem failed_pr_run_ends_resolved:
  "map_sum id (\<lambda>(ns, w, s). (ns, status s, error s,
       map (\<lambda>e. (node e, step_status e)) (stepLog s), length (w_fixes w)))
     (invoke code_run_env empty_world sampleCodeVuln) =
   Inr ([ClassifyVuln, SearchRAG, ResearchFix, CreatePR, StoreInRAG], Resolved,
        ''No patch content generated '' @ em_dash @ '' cannot create PR.'',
        [(''classifyVuln'', Completed), (''searchRAG'', Completed),
         (''researchFix'', Completed), (''createPR'', StepFailed),
         (''storeInRAG'', Completed)], 1)"
  by (simp add: invoke_def code_run_env_def empty_world_def sampleCodeVuln_def initial_state_def
      run_node_def next_node_def apply_update_def reduce_def overwrite_def append_log_def
      classifyVuln_def classify_result_def searchRAG_def researchFix_def research_result_def
      createPRNode_def failed_update_def storeInRAG_def no_update_def logEntry_def Let_def
      or_else_def or_undefined_def category_name_def)

section \<open>Properties of the tag stage with its wait\<close>













section \<open>Claim about the tag stage with its wait\<close>




end
